theory Spec2Isabelle
  imports Complex_Main "HOL-Library.Multiset" "HOL-Library.Char_ord" "HOL-Library.List_Lexorder"
begin

section \<open>JavaScript values and plain records\<close>

text \<open>
  Field values of the store are primitive JavaScript values; a relation-valued field
  holds the id of the related entity. Numbers are integers here.
\<close>

datatype val = VUndefined | VNull | VBool bool | VNum int | VStr string

text \<open>A plain object with primitive field values, as the raw records of a table are.\<close>

type_synonym rawrec = "(string \<times> val) list"

text \<open>\<open>obj[key]\<close> on a plain object: \<open>undefined\<close> for an absent key.\<close>

definition get_prop :: "rawrec \<Rightarrow> string \<Rightarrow> val" where
  "get_prop r k = (case map_of r k of None \<Rightarrow> VUndefined | Some v \<Rightarrow> v)"

text \<open>JavaScript truthiness (\<open>ToBoolean\<close>) of a primitive value.\<close>

fun truthy :: "val \<Rightarrow> bool" where
  "truthy VUndefined = False"
| "truthy VNull = False"
| "truthy (VBool b) = b"
| "truthy (VNum n) = (n \<noteq> 0)"
| "truthy (VStr s) = (s \<noteq> [])"

text \<open>\<open>array[i]\<close>: \<open>undefined\<close> outside the array.\<close>

definition array_get :: "val list \<Rightarrow> int \<Rightarrow> val" where
  "array_get xs i = (if 0 \<le> i \<and> i < int (length xs) then xs ! nat i else VUndefined)"

datatype error = TypeError

text \<open>\<open>Array.prototype.map\<close> with a callback that may throw: the first throw aborts.\<close>

fun map_throwing :: "('a \<Rightarrow> error + 'b) \<Rightarrow> 'a list \<Rightarrow> error + 'b list" where
  "map_throwing f [] = Inr []"
| "map_throwing f (x # xs) =
     (case f x of
        Inl e \<Rightarrow> Inl e
      | Inr y \<Rightarrow> (case map_throwing f xs of Inl e \<Rightarrow> Inl e | Inr ys \<Rightarrow> Inr (y # ys)))"

section \<open>Update records and the update log\<close>

text \<open>
  The wire shape \<open>{ type, payload, meta: { name } }\<close>. \<open>QuerySet.update\<close> builds
  \<open>{ type: UPDATE, payload: { idArr, mergeObj } }\<close> and \<open>QuerySet.delete\<close> builds
  \<open>{ type: DELETE, payload: idArr }\<close>; \<open>u_meta\<close> is \<open>meta.name\<close>, absent until the
  model class stamps the record.
\<close>

datatype update_type = UPDATE | DELETE | OTHER string

datatype payload =
    UpdatePayload "val list" rawrec
  | DeletePayload "val list"
  | OtherPayload rawrec

record update_rec =
  u_type :: update_type
  u_payload :: payload
  u_meta :: "string option"

text \<open>
  Modelled from the spec: the Ordered Update Log (\<open>Transaction\<close>, whose file is not among
  the sources). An append-only ordered list of entries; \<open>Session.updates\<close> reads
  \<open>currentTx.updates.map(update => update.update)\<close>, so an entry wraps its record. The log
  tracks which records the Apply Engine has consumed: \<open>getUpdatesFor\<close> returns, in the
  original order, the records whose target is the table; \<open>getUnappliedUpdatesByModel\<close>
  maps a table name to its records, restricted to the tables with records not yet marked
  applied; \<open>close\<close> marks the log finished.
\<close>

record tx_entry =
  update :: update_rec
  applied :: bool

record transaction =
  updates :: "tx_entry list"
  tx_closed :: bool

definition new_Transaction :: transaction where
  "new_Transaction = \<lparr>updates = [], tx_closed = False\<rparr>"

definition Transaction_addUpdate :: "update_rec \<Rightarrow> transaction \<Rightarrow> transaction" where
  "Transaction_addUpdate u tx =
     tx\<lparr>updates := updates tx @ [\<lparr>update = u, applied = False\<rparr>]\<rparr>"

definition Transaction_getUpdatesFor :: "string \<Rightarrow> transaction \<Rightarrow> update_rec list" where
  "Transaction_getUpdatesFor mname tx =
     map update (filter (\<lambda>e. u_meta (update e) = Some mname) (updates tx))"

definition unappliedFor :: "string \<Rightarrow> transaction \<Rightarrow> update_rec list" where
  "unappliedFor mname tx =
     map update
       (filter (\<lambda>e. u_meta (update e) = Some mname \<and> \<not> applied e) (updates tx))"

definition Transaction_getUnappliedUpdatesByModel ::
    "transaction \<Rightarrow> string \<Rightarrow> update_rec list option" where
  "Transaction_getUnappliedUpdatesByModel tx mname =
     (if unappliedFor mname tx = [] then None else Some (unappliedFor mname tx))"

definition Transaction_markApplied :: "string \<Rightarrow> transaction \<Rightarrow> transaction" where
  "Transaction_markApplied mname tx =
     tx\<lparr>updates :=
          map (\<lambda>e. if u_meta (update e) = Some mname then e\<lparr>applied := True\<rparr> else e)
            (updates tx)\<rparr>"

definition Transaction_close :: "transaction \<Rightarrow> transaction" where
  "Transaction_close tx = tx\<lparr>tx_closed := True\<rparr>"

section \<open>Tables, the state tree and the model-class collaborator\<close>

text \<open>
  A table value: the ordered id sequence and the mapping from id to raw record. The state
  tree maps a table name to its table value; \<open>None\<close> is \<open>undefined\<close>.
\<close>

record table =
  items :: "val list"
  itemsById :: "val \<Rightarrow> rawrec option"

type_synonym state_tree = "string \<Rightarrow> table option"

type_synonym action = rawrec

text \<open>
  A wrapped entity, as far as QuerySet uses it: what \<open>obj.getId()\<close> returns, the update
  records its \<open>_onDelete()\<close> hook hands to \<open>addUpdate\<close>, and the fields it wraps.
\<close>

record model =
  getId :: val
  onDelete :: "update_rec list"
  m_ref :: rawrec

text \<open>
  What a caller-supplied function can be handed: a raw record, a wrapped entity, or the
  not-found value of a lookup that missed.
\<close>

datatype entity = Missing | Ref rawrec | Wrapped model

definition ref_entity :: "rawrec option \<Rightarrow> entity" where
  "ref_entity r = (case r of None \<Rightarrow> Missing | Some x \<Rightarrow> Ref x)"

definition model_entity :: "model option \<Rightarrow> entity" where
  "model_entity m = (case m of None \<Rightarrow> Missing | Some x \<Rightarrow> Wrapped x)"

text \<open>
  The session-bound model class (its file is not among the sources): the collaborator
  contract that Session and QuerySet call. Methods that read the session take its state
  tree; methods that touch the update log take the log and return it. A reducer returns
  \<open>None\<close> for \<open>undefined\<close>; its effects are confined to the update log.
\<close>

record model_class =
  modelName :: string
  idAttribute :: string
  accessId :: "state_tree \<Rightarrow> val \<Rightarrow> rawrec option"
  withId :: "state_tree \<Rightarrow> val \<Rightarrow> model option"
  reducer :: "table option \<Rightarrow> action option \<Rightarrow> state_tree \<Rightarrow> transaction
                \<Rightarrow> table option \<times> transaction"
  getNextState :: "state_tree \<Rightarrow> transaction \<Rightarrow> table option \<times> transaction"
  updateReducer :: "transaction option \<Rightarrow> table \<Rightarrow> update_rec \<Rightarrow> table"

text \<open>
  Modelled from the spec: \<open>ops\<close> of utils (not among the sources), the copy-on-write
  engine behind the state tree. \<open>ops.set(key, value, obj)\<close> gives the tree with the entry
  of one table replaced and every other entry shared.
\<close>

definition ops_set :: "string \<Rightarrow> table option \<Rightarrow> state_tree \<Rightarrow> state_tree" where
  "ops_set key v obj = obj(key := v)"

section \<open>Session\<close>

text \<open>
  The fields of a Session after construction. \<open>modelData\<close> keeps the \<open>accessed\<close> flag of
  \<open>getDataForModel(name)\<close>. The constructor defines one property per model name on the
  session with \<open>Object.defineProperty\<close>, which throws on a name defined twice, so the names
  of \<open>sessionBoundModels\<close> are distinct in every constructed session.
\<close>

record session =
  state :: state_tree
  action :: "action option"
  withMutations :: bool
  currentTx :: transaction
  sessionBoundModels :: "model_class list"
  modelData :: "string \<Rightarrow> bool"

definition Session_markAccessed :: "session \<Rightarrow> model_class \<Rightarrow> session" where
  "Session_markAccessed s m = s\<lparr>modelData := (modelData s)(modelName m := True)\<rparr>"

definition Session_accessedModels :: "session \<Rightarrow> string list" where
  "Session_accessedModels s =
     map modelName (filter (\<lambda>m. modelData s (modelName m)) (sessionBoundModels s))"

text \<open>\<open>this[modelName]\<close>: the session-bound model class of that name, if any.\<close>

definition Session_boundModel :: "session \<Rightarrow> string \<Rightarrow> model_class option" where
  "Session_boundModel s mname = find (\<lambda>m. modelName m = mname) (sessionBoundModels s)"

definition Session_getState :: "session \<Rightarrow> string \<Rightarrow> table option" where
  "Session_getState s mname = state s mname"

text \<open>
  \<open>addUpdate\<close>. With mutations, \<open>update.meta.name\<close> and \<open>this[modelName].updateReducer\<close> are
  read, each a TypeError on \<open>undefined\<close>; the backend used in the update reducer mutates
  the model state in place and the return value is dropped, so the table stored under the
  name takes the mutated content, and an \<open>undefined\<close> model state has nothing to mutate.
\<close>

definition Session_addUpdate :: "session \<Rightarrow> update_rec \<Rightarrow> error + session" where
  "Session_addUpdate s u =
     (if withMutations s then
        (case u_meta u of
           None \<Rightarrow> Inl TypeError
         | Some mname \<Rightarrow>
             (let modelState = Session_getState s mname in
              case Session_boundModel s mname of
                None \<Rightarrow> Inl TypeError
              | Some mc \<Rightarrow>
                  (case modelState of
                     None \<Rightarrow> Inr s
                   | Some t \<Rightarrow> Inr (s\<lparr>state := (state s)(mname := Some (updateReducer mc None t u))\<rparr>))))
      else Inr (s\<lparr>currentTx := Transaction_addUpdate u (currentTx s)\<rparr>))"

definition Session_getUpdatesFor :: "session \<Rightarrow> string \<Rightarrow> update_rec list" where
  "Session_getUpdatesFor s mname = Transaction_getUpdatesFor mname (currentTx s)"

definition Session_updates :: "session \<Rightarrow> update_rec list" where
  "Session_updates s = map update (updates (currentTx s))"

record getNextState_opts =
  runReducers :: "bool option"

text \<open>
  The callback of the first \<open>reduce\<close> of \<open>getNextState\<close>: the accumulator is the state tree
  being assembled, threaded together with the log \<open>tx\<close> that reducers and
  \<open>modelClass.getNextState(tx)\<close> work on.
\<close>

definition reducerStep ::
    "session \<Rightarrow> state_tree \<times> transaction \<Rightarrow> model_class \<Rightarrow> state_tree \<times> transaction" where
  "reducerStep s acc mcls =
     (case acc of (nextState, tx) \<Rightarrow>
        (let modelState = Session_getState s (modelName mcls) in
         case reducer mcls modelState (action s) (state s) tx of
           (returnValue, tx1) \<Rightarrow>
             (case (case returnValue of
                      None \<Rightarrow> getNextState mcls (state s) tx1
                    | Some v \<Rightarrow> (Some v, tx1)) of
                (returnValue2, tx2) \<Rightarrow>
                  (ops_set (modelName mcls) returnValue2 nextState, tx2))))"

text \<open>The callback of the second \<open>reduce\<close>, over the tables with unapplied updates.\<close>

definition unappliedStep ::
    "session \<Rightarrow> (string \<Rightarrow> update_rec list option) \<Rightarrow> state_tree \<times> transaction
       \<Rightarrow> model_class \<Rightarrow> state_tree \<times> transaction" where
  "unappliedStep s unappliedUpdates acc mcls =
     (case acc of (nextState, tx) \<Rightarrow>
        (if unappliedUpdates (modelName mcls) = None then (nextState, tx)
         else (case getNextState mcls (state s) tx of
                 (v, tx1) \<Rightarrow> (ops_set (modelName mcls) v nextState, tx1))))"

definition reducerPass :: "session \<Rightarrow> model_class list \<Rightarrow> state_tree \<times> transaction" where
  "reducerPass s ms = foldl (reducerStep s) (state s, currentTx s) ms"

definition unappliedPass ::
    "session \<Rightarrow> state_tree \<times> transaction \<Rightarrow> model_class list \<Rightarrow> state_tree \<times> transaction" where
  "unappliedPass s acc ms =
     foldl (unappliedStep s (Transaction_getUnappliedUpdatesByModel (snd acc))) acc ms"

text \<open>
  \<open>opts.hasOwnProperty('runReducers') ? opts.runReducers : !!action\<close>.
\<close>

definition runReducers_of :: "session \<Rightarrow> getNextState_opts option \<Rightarrow> bool" where
  "runReducers_of s userOpts =
     (case userOpts of
        None \<Rightarrow> action s \<noteq> None
      | Some opts \<Rightarrow> (case runReducers opts of None \<Rightarrow> action s \<noteq> None | Some b \<Rightarrow> b))"

text \<open>
  \<open>getNextState\<close> returns the next state and leaves the session changed: the result pairs
  the returned tree with the session afterwards. The mapping of unapplied updates is an
  object, so \<open>if (unappliedUpdates)\<close> always holds; it is read once, before the second
  pass. The old log is closed and dropped. \<open>ops.open()\<close> and \<open>ops.close()\<close> bracket the
  batch in which \<open>ops.set\<close> may reuse its copy; they do not change what is computed.
\<close>

definition Session_getNextState ::
    "session \<Rightarrow> getNextState_opts option \<Rightarrow> state_tree \<times> session" where
  "Session_getNextState s userOpts =
     (if withMutations s then (state s, s)
      else
        (let afterReducers =
               (if runReducers_of s userOpts then reducerPass s (sessionBoundModels s)
                else (state s, currentTx s));
             afterUnapplied = unappliedPass s afterReducers (sessionBoundModels s)
         in (fst afterUnapplied, s\<lparr>currentTx := new_Transaction\<rparr>)))"

definition Session_reduce :: "session \<Rightarrow> state_tree \<times> session" where
  "Session_reduce s = Session_getNextState s (Some \<lparr>runReducers = Some True\<rparr>)"

section \<open>The lodash functions QuerySet delegates to\<close>

text \<open>
  lodash is an external library; these definitions follow lodash 4 on arrays of plain
  records with primitive field values.
\<close>

definition lodash_filter :: "'a list \<Rightarrow> ('a \<Rightarrow> bool) \<Rightarrow> 'a list" where
  "lodash_filter collection p = filter p collection"

definition lodash_reject :: "'a list \<Rightarrow> ('a \<Rightarrow> bool) \<Rightarrow> 'a list" where
  "lodash_reject collection p = filter (\<lambda>x. \<not> p x) collection"

definition mapValues :: "(string \<times> 'a) list \<Rightarrow> ('a \<Rightarrow> 'b) \<Rightarrow> (string \<times> 'b) list" where
  "mapValues obj f = map (\<lambda>(k, v). (k, f v)) obj"

text \<open>
  \<open>baseProperty(key)\<close>: \<open>object == null ? undefined : object[key]\<close>, applied to an array
  element that may be \<open>undefined\<close>. It is used with keys that no object inherits, for
  which \<open>object[key]\<close> is the record's own value or \<open>undefined\<close>.
\<close>

definition baseProperty :: "string \<Rightarrow> rawrec option \<Rightarrow> val" where
  "baseProperty key object =
     (case object of None \<Rightarrow> VUndefined | Some r \<Rightarrow> get_prop r key)"

text \<open>
  A field name: a string that \<open>_.property\<close> reads as one key of the record itself. lodash
  takes a string with \<open>.\<close> or \<open>[\<close> for a path into nested values, and \<open>object[key]\<close>
  finds the names of \<open>Object.prototype\<close> on every object: what such strings read is not
  a field of the record, and they are left out of the type.
\<close>

definition Object_prototype_names :: "string list" where
  "Object_prototype_names =
     [''constructor'', ''hasOwnProperty'', ''isPrototypeOf'', ''propertyIsEnumerable'',
      ''toLocaleString'', ''toString'', ''valueOf'', ''__proto__'', ''__defineGetter__'',
      ''__defineSetter__'', ''__lookupGetter__'', ''__lookupSetter__'']"

definition plain_key :: "string \<Rightarrow> bool" where
  "plain_key s =
     (CHR ''.'' \<notin> set s \<and> CHR ''['' \<notin> set s \<and> s \<notin> set Object_prototype_names)"

typedef field_name = "{s. plain_key s}"
  morphisms key_of Field
  by (rule exI [of _ "[]"]) (simp add: plain_key_def Object_prototype_names_def)

text \<open>\<open>_.property(key)\<close> for a field name.\<close>

definition lodash_property :: "field_name \<Rightarrow> rawrec option \<Rightarrow> val" where
  "lodash_property key object = baseProperty (key_of key) object"

text \<open>A value of a lookup object: a primitive, or a wrapped entity standing for a relation.\<close>

datatype lookup_value = LVal val | LEntity model

text \<open>
  \<open>_.matches(source)\<close>: every key of the source is a key of the object with an equal
  value; on \<open>null\<close> or \<open>undefined\<close> it holds for the empty source only. A wrapped entity
  left in the source equals no primitive field value.
\<close>

fun matches_value :: "val option \<Rightarrow> lookup_value \<Rightarrow> bool" where
  "matches_value (Some v) (LVal x) = (v = x)"
| "matches_value _ _ = False"

definition lodash_matches :: "(string \<times> lookup_value) list \<Rightarrow> rawrec option \<Rightarrow> bool" where
  "lodash_matches source object =
     (case object of
        None \<Rightarrow> source = []
      | Some r \<Rightarrow> list_all (\<lambda>(k, v). matches_value (map_of r k) v) source)"

text \<open>\<open>String(n)\<close> for an integer.\<close>

fun digits_of_nat :: "nat \<Rightarrow> string" where
  "digits_of_nat n =
     (if n < 10 then [char_of (48 + n)]
      else digits_of_nat (n div 10) @ [char_of (48 + n mod 10)])"

declare digits_of_nat.simps [simp del]

definition js_String :: "int \<Rightarrow> string" where
  "js_String i = (if i < 0 then CHR ''-'' # digits_of_nat (nat (- i)) else digits_of_nat (nat i))"

text \<open>
  The relational operators on primitives: two strings compare by code units, anything
  else as numbers, and a comparison with \<open>NaN\<close> is false. What \<open>ToNumber\<close> yields is a
  double: a rational, an infinity or \<open>NaN\<close>. The conversion of a string (the grammar of
  numeric literals, then rounding) is not defined here: the functions that compare take it
  as their first argument \<open>StringToNumber\<close>, and what is proved of them holds for every
  conversion.
\<close>

datatype jsnum = NaN | Fin rat | Infinity | MinusInfinity

fun num_lt :: "jsnum \<Rightarrow> jsnum \<Rightarrow> bool" where
  "num_lt (Fin x) (Fin y) = (x < y)"
| "num_lt (Fin x) Infinity = True"
| "num_lt MinusInfinity (Fin y) = True"
| "num_lt MinusInfinity Infinity = True"
| "num_lt x y = False"

fun str_lt :: "string \<Rightarrow> string \<Rightarrow> bool" where
  "str_lt [] [] = False"
| "str_lt [] (b # bs) = True"
| "str_lt (a # as) [] = False"
| "str_lt (a # as) (b # bs) =
     (if (of_char a :: nat) < of_char b then True
      else if (of_char a :: nat) = of_char b then str_lt as bs
      else False)"

fun ToNumber :: "(string \<Rightarrow> jsnum) \<Rightarrow> val \<Rightarrow> jsnum" where
  "ToNumber StringToNumber VUndefined = NaN"
| "ToNumber StringToNumber VNull = Fin 0"
| "ToNumber StringToNumber (VBool b) = Fin (if b then 1 else 0)"
| "ToNumber StringToNumber (VNum n) = Fin (of_int n)"
| "ToNumber StringToNumber (VStr s) = StringToNumber s"

fun js_lt :: "(string \<Rightarrow> jsnum) \<Rightarrow> val \<Rightarrow> val \<Rightarrow> bool" where
  "js_lt StringToNumber (VStr a) (VStr b) = str_lt a b"
| "js_lt StringToNumber a b = num_lt (ToNumber StringToNumber a) (ToNumber StringToNumber b)"

definition js_gt :: "(string \<Rightarrow> jsnum) \<Rightarrow> val \<Rightarrow> val \<Rightarrow> bool" where
  "js_gt StringToNumber a b = js_lt StringToNumber b a"

text \<open>
  \<open>compareAscending\<close> of lodash 4.17, without symbols and \<open>NaN\<close>: \<open>null\<close> sorts after
  every defined value and \<open>undefined\<close> last.
\<close>

definition compareAscending :: "(string \<Rightarrow> jsnum) \<Rightarrow> val \<Rightarrow> val \<Rightarrow> int" where
  "compareAscending StringToNumber v other =
     (if v \<noteq> other then
        (if (other \<noteq> VNull \<and> js_gt StringToNumber v other) \<or> (v = VNull \<and> other \<noteq> VUndefined)
            \<or> v = VUndefined then 1
         else if (v \<noteq> VNull \<and> js_lt StringToNumber v other) \<or> (other = VNull \<and> v \<noteq> VUndefined)
            \<or> other = VUndefined then - 1
         else 0)
      else 0)"

text \<open>An entry of \<open>orders\<close>: \<open>'desc'\<close> is descending, any other entry ascending.\<close>

datatype order = Asc | Desc

record 'a sort_item =
  criteria :: "val list"
  index :: nat
  sort_value :: 'a

text \<open>
  The loop of \<open>compareMultiple\<close> over the criteria: the first criterion that differs
  decides, negated when its order is \<open>'desc'\<close>; past the end of \<open>orders\<close> it is ascending.
\<close>

fun compareCriteria :: "(string \<Rightarrow> jsnum) \<Rightarrow> val list \<Rightarrow> val list \<Rightarrow> order list \<Rightarrow> int" where
  "compareCriteria StringToNumber (a # as) (b # bs) orders =
     (let result = compareAscending StringToNumber a b in
      if result \<noteq> 0 then
        (case orders of
           [] \<Rightarrow> result
         | ord # _ \<Rightarrow> result * (if ord = Desc then - 1 else 1))
      else compareCriteria StringToNumber as bs (case orders of [] \<Rightarrow> [] | _ # rest \<Rightarrow> rest))"
| "compareCriteria StringToNumber _ _ orders = 0"

definition compareMultiple ::
    "(string \<Rightarrow> jsnum) \<Rightarrow> 'a sort_item \<Rightarrow> 'a sort_item \<Rightarrow> order list \<Rightarrow> int" where
  "compareMultiple StringToNumber object other orders =
     (let result = compareCriteria StringToNumber (criteria object) (criteria other) orders in
      if result \<noteq> 0 then result else int (index object) - int (index other))"

text \<open>
  \<open>array.sort(comparer)\<close>, as insertion from the right. \<open>compareMultiple\<close> never answers 0
  on two different indices, so for a consistent comparer every sorting algorithm gives
  this order. For a comparer that is not consistent the order is up to the engine, and
  this one is that of insertion: an element moves across the elements the comparer puts
  before it and stops at the first it does not.
\<close>

fun insort_cmp :: "('a \<Rightarrow> 'a \<Rightarrow> int) \<Rightarrow> 'a \<Rightarrow> 'a list \<Rightarrow> 'a list" where
  "insort_cmp cmp x [] = [x]"
| "insort_cmp cmp x (y # ys) = (if cmp x y \<le> 0 then x # y # ys else y # insort_cmp cmp x ys)"

definition baseSortBy :: "'a list \<Rightarrow> ('a \<Rightarrow> 'a \<Rightarrow> int) \<Rightarrow> 'a list" where
  "baseSortBy array comparer = foldr (insort_cmp comparer) array []"

text \<open>
  \<open>_.orderBy(collection, iteratees, orders)\<close>: each element gets its criteria and its
  index, the items are sorted, the elements returned. An iteratee that throws aborts the
  call. With no iteratee lodash compares the elements themselves, which are objects and
  tie, as the empty criteria do here.
\<close>

definition lodash_orderBy ::
    "(string \<Rightarrow> jsnum) \<Rightarrow> 'a list \<Rightarrow> ('a \<Rightarrow> error + val) list \<Rightarrow> order list option
       \<Rightarrow> error + 'a list" where
  "lodash_orderBy StringToNumber collection iteratees orders =
     (let ords = (case orders of None \<Rightarrow> [] | Some os \<Rightarrow> os) in
      case map_throwing
             (\<lambda>(v, i). case map_throwing (\<lambda>iteratee. iteratee v) iteratees of
                          Inl e \<Rightarrow> Inl e
                        | Inr cs \<Rightarrow> Inr \<lparr>criteria = cs, index = i, sort_value = v\<rparr>)
             (zip collection [0..<length collection]) of
        Inl e \<Rightarrow> Inl e
      | Inr result \<Rightarrow>
          Inr (map sort_value
                 (baseSortBy result (\<lambda>a b. compareMultiple StringToNumber a b ords))))"

section \<open>QuerySet\<close>

text \<open>
  The options object, as far as QuerySet reads it: the key \<open>withRefs\<close>, absent or set.
  The private fields \<open>_opts\<close> and \<open>_withRefs\<close> are \<open>priv_opts\<close> and \<open>priv_withRefs\<close>.
\<close>

record qs_opts =
  withRefs :: "bool option"

record QuerySet =
  modelClass :: model_class
  idArr :: "val list"
  priv_opts :: "qs_opts option"
  priv_withRefs :: bool

definition QuerySet_constructor :: "model_class \<Rightarrow> val list \<Rightarrow> qs_opts option \<Rightarrow> QuerySet" where
  "QuerySet_constructor mcls ids opts =
     \<lparr>modelClass = mcls, idArr = ids, priv_opts = opts,
      priv_withRefs =
        (case opts of
           None \<Rightarrow> False
         | Some ob \<Rightarrow> (case withRefs ob of None \<Rightarrow> False | Some b \<Rightarrow> b))\<rparr>"

text \<open>\<open>Object.assign({}, a, b)\<close> on options objects that may be \<open>undefined\<close>.\<close>

definition Object_assign :: "qs_opts option \<Rightarrow> qs_opts option \<Rightarrow> qs_opts" where
  "Object_assign a b =
     (let fromA = (case a of None \<Rightarrow> None | Some oa \<Rightarrow> withRefs oa) in
      \<lparr>withRefs =
         (case b of
            None \<Rightarrow> fromA
          | Some ob \<Rightarrow> (case withRefs ob of None \<Rightarrow> fromA | Some x \<Rightarrow> Some x))\<rparr>)"

definition priv_new :: "QuerySet \<Rightarrow> val list \<Rightarrow> qs_opts option \<Rightarrow> QuerySet" where
  "priv_new q ids userOpts =
     QuerySet_constructor (modelClass q) ids (Some (Object_assign (priv_opts q) userOpts))"

text \<open>
  A getter that returns either its receiver (\<open>return this\<close>) or a newly built QuerySet:
  the result says which, so that reference identity can be told from equal content.
\<close>

datatype 'a returned = This | Fresh 'a

definition deref :: "'a \<Rightarrow> 'a returned \<Rightarrow> 'a" where
  "deref this r = (case r of This \<Rightarrow> this | Fresh x \<Rightarrow> x)"

definition QuerySet_withRefs :: "QuerySet \<Rightarrow> QuerySet returned" where
  "QuerySet_withRefs q =
     (if \<not> priv_withRefs q then Fresh (priv_new q (idArr q) (Some \<lparr>withRefs = Some True\<rparr>))
      else This)"

definition QuerySet_ref :: "QuerySet \<Rightarrow> QuerySet returned" where
  "QuerySet_ref q = QuerySet_withRefs q"

definition QuerySet_withModels :: "QuerySet \<Rightarrow> QuerySet returned" where
  "QuerySet_withModels q =
     (if priv_withRefs q then Fresh (priv_new q (idArr q) (Some \<lparr>withRefs = Some False\<rparr>))
      else This)"

text \<open>
  The reading operations take the state tree of the session the model class is bound to.
\<close>

definition QuerySet_toRefArray :: "state_tree \<Rightarrow> QuerySet \<Rightarrow> rawrec option list" where
  "QuerySet_toRefArray st q = map (\<lambda>i. accessId (modelClass q) st i) (idArr q)"

definition QuerySet_at :: "state_tree \<Rightarrow> QuerySet \<Rightarrow> int \<Rightarrow> entity" where
  "QuerySet_at st q i =
     (if priv_withRefs q then ref_entity (accessId (modelClass q) st (array_get (idArr q) i))
      else model_entity (withId (modelClass q) st (array_get (idArr q) i)))"

definition QuerySet_toModelArray :: "state_tree \<Rightarrow> QuerySet \<Rightarrow> entity list" where
  "QuerySet_toModelArray st q =
     map (\<lambda>idx. QuerySet_at st q (int idx)) [0..<length (idArr q)]"

definition QuerySet_count :: "QuerySet \<Rightarrow> nat" where
  "QuerySet_count q = length (idArr q)"

definition QuerySet_exists :: "QuerySet \<Rightarrow> bool" where
  "QuerySet_exists q = (QuerySet_count q \<noteq> 0)"

definition QuerySet_first :: "state_tree \<Rightarrow> QuerySet \<Rightarrow> entity" where
  "QuerySet_first st q = QuerySet_at st q 0"

definition QuerySet_last :: "state_tree \<Rightarrow> QuerySet \<Rightarrow> entity" where
  "QuerySet_last st q = QuerySet_at st q (int (length (idArr q)) - 1)"

definition QuerySet_all :: "QuerySet \<Rightarrow> QuerySet" where
  "QuerySet_all q = priv_new q (idArr q) None"

definition QuerySet_map :: "state_tree \<Rightarrow> QuerySet \<Rightarrow> (entity \<Rightarrow> 'b) \<Rightarrow> 'b list" where
  "QuerySet_map st q func =
     map (\<lambda>idx. func (QuerySet_at st q (int idx))) [0..<length (idArr q)]"

text \<open>
  The predicate argument of \<open>filter\<close> and \<open>exclude\<close>, by its JavaScript shape. A function
  answers with the truthiness of what it returns.
\<close>

datatype predicate =
    PFunction "entity \<Rightarrow> bool"
  | PObject "(string \<times> lookup_value) list"
  | PNull
  | PUndefined
  | PString field_name
  | PNumber int
  | PBool bool

fun typeof :: "predicate \<Rightarrow> string" where
  "typeof (PFunction f) = ''function''"
| "typeof (PObject ob) = ''object''"
| "typeof PNull = ''object''"
| "typeof PUndefined = ''undefined''"
| "typeof (PString s) = ''string''"
| "typeof (PNumber n) = ''number''"
| "typeof (PBool b) = ''boolean''"

text \<open>
  Modelled from the spec: \<open>normalizeEntity\<close> of utils (not among the sources), the
  normalization step converting a relation-valued field reference to its canonical id
  form before comparison.
\<close>

definition normalizeEntity :: "lookup_value \<Rightarrow> lookup_value" where
  "normalizeEntity v = (case v of LEntity m \<Rightarrow> LVal (getId m) | LVal x \<Rightarrow> LVal x)"

text \<open>\<open>mapValues(lookupObj, normalizeEntity)\<close>; on \<open>null\<close> lodash returns \<open>{}\<close>.\<close>

fun mapValues_normalizeEntity :: "predicate \<Rightarrow> predicate" where
  "mapValues_normalizeEntity (PObject ob) = PObject (mapValues ob normalizeEntity)"
| "mapValues_normalizeEntity PNull = PObject []"
| "mapValues_normalizeEntity p = p"

text \<open>
  How lodash turns the second argument of \<open>filter\<close> and \<open>reject\<close> into a test on an array
  element of \<open>toRefArray\<close>: a function is called, an object is a \<open>matches\<close> source,
  \<open>null\<close> and \<open>undefined\<close> give the identity, and any other primitive is a property name:
  a string as it is, a number or boolean as \<open>String\<close> writes it, which is never a path nor
  an inherited name.
\<close>

fun lodash_iteratee :: "predicate \<Rightarrow> rawrec option \<Rightarrow> bool" where
  "lodash_iteratee (PFunction f) e = f (ref_entity e)"
| "lodash_iteratee (PObject source) e = lodash_matches source e"
| "lodash_iteratee PNull e = (e \<noteq> None)"
| "lodash_iteratee PUndefined e = (e \<noteq> None)"
| "lodash_iteratee (PString s) e = truthy (lodash_property s e)"
| "lodash_iteratee (PNumber n) e = truthy (baseProperty (js_String n) e)"
| "lodash_iteratee (PBool b) e = truthy (baseProperty (if b then ''true'' else ''false'') e)"

definition func_of :: "bool \<Rightarrow> 'a list \<Rightarrow> ('a \<Rightarrow> bool) \<Rightarrow> 'a list" where
  "func_of exclude = (if exclude then lodash_reject else lodash_filter)"

text \<open>
  The two \<open>getIdFunc\<close>s: \<open>obj[idAttribute]\<close> on an element of \<open>toRefArray\<close>, and
  \<open>obj.getId()\<close> on an element of \<open>toModelArray\<close>. Reading a property of \<open>undefined\<close>, and
  calling a method the object does not have, is a TypeError.
\<close>

definition getIdFunc_ref :: "string \<Rightarrow> rawrec option \<Rightarrow> error + val" where
  "getIdFunc_ref idAttr obj =
     (case obj of None \<Rightarrow> Inl TypeError | Some r \<Rightarrow> Inr (get_prop r idAttr))"

fun getIdFunc_model :: "entity \<Rightarrow> error + val" where
  "getIdFunc_model (Wrapped m) = Inr (getId m)"
| "getIdFunc_model _ = Inl TypeError"

definition QuerySet_filterOrExclude ::
    "state_tree \<Rightarrow> QuerySet \<Rightarrow> predicate \<Rightarrow> bool \<Rightarrow> error + QuerySet" where
  "QuerySet_filterOrExclude st q lookupObj0 exclude =
     (case
        (case lookupObj0 of
           PFunction f \<Rightarrow>
             (if priv_withRefs q then
                map_throwing (getIdFunc_ref (idAttribute (modelClass q)))
                  (func_of exclude (QuerySet_toRefArray st q) (\<lambda>e. f (ref_entity e)))
              else
                map_throwing getIdFunc_model
                  (func_of exclude (QuerySet_toModelArray st q) f))
         | _ \<Rightarrow>
             (let lookupObj =
                    (if typeof lookupObj0 = ''object'' then mapValues_normalizeEntity lookupObj0
                     else lookupObj0)
              in map_throwing (getIdFunc_ref (idAttribute (modelClass q)))
                   (func_of exclude (QuerySet_toRefArray st q) (lodash_iteratee lookupObj)))) of
        Inl e \<Rightarrow> Inl e
      | Inr newIdArr \<Rightarrow> Inr (priv_new q newIdArr (Some \<lparr>withRefs = Some False\<rparr>)))"

definition QuerySet_filter :: "state_tree \<Rightarrow> QuerySet \<Rightarrow> predicate \<Rightarrow> error + QuerySet" where
  "QuerySet_filter st q lookupObj = QuerySet_filterOrExclude st q lookupObj False"

definition QuerySet_exclude :: "state_tree \<Rightarrow> QuerySet \<Rightarrow> predicate \<Rightarrow> error + QuerySet" where
  "QuerySet_exclude st q lookupObj = QuerySet_filterOrExclude st q lookupObj True"

text \<open>
  The iteratees of \<open>orderBy\<close>: a field name or a function deriving the sort key. Without
  \<open>withRefs\<close> a function is wrapped so that it receives the model instance looked up by
  the id of the record; that wrapper reads the id attribute of the element, a TypeError
  on \<open>undefined\<close>.
\<close>

datatype iteratee = IField field_name | IFunction "entity \<Rightarrow> val"

fun plain_iteratee :: "iteratee \<Rightarrow> rawrec option \<Rightarrow> error + val" where
  "plain_iteratee (IField k) e = Inr (lodash_property k e)"
| "plain_iteratee (IFunction f) e = Inr (f (ref_entity e))"

fun wrapped_iteratee :: "state_tree \<Rightarrow> model_class \<Rightarrow> iteratee \<Rightarrow> rawrec option \<Rightarrow> error + val" where
  "wrapped_iteratee st mcls (IFunction f) e =
     (case e of
        None \<Rightarrow> Inl TypeError
      | Some r \<Rightarrow> Inr (f (model_entity (withId mcls st (get_prop r (idAttribute mcls))))))"
| "wrapped_iteratee st mcls (IField k) e = Inr (lodash_property k e)"

definition QuerySet_orderBy ::
    "(string \<Rightarrow> jsnum) \<Rightarrow> state_tree \<Rightarrow> QuerySet \<Rightarrow> iteratee list \<Rightarrow> order list option
       \<Rightarrow> error + QuerySet" where
  "QuerySet_orderBy StringToNumber st q iteratees orders =
     (let entities = QuerySet_toRefArray st q;
          iterateeArgs =
            (if \<not> priv_withRefs q then map (wrapped_iteratee st (modelClass q)) iteratees
             else map plain_iteratee iteratees)
      in case lodash_orderBy StringToNumber entities iterateeArgs orders of
           Inl e \<Rightarrow> Inl e
         | Inr sortedEntities \<Rightarrow>
             (case map_throwing (getIdFunc_ref (idAttribute (modelClass q))) sortedEntities of
                Inl e \<Rightarrow> Inl e
              | Inr ids \<Rightarrow> Inr (priv_new q ids (Some \<lparr>withRefs = Some False\<rparr>))))"

text \<open>
  Modelled from the spec: \<open>Model.addUpdate\<close> (not among the sources) routes the record to
  the owning session's log; it stamps the target table name, as the wire shape
  \<open>meta: { name }\<close> requires.
\<close>

definition Model_addUpdate :: "model_class \<Rightarrow> update_rec \<Rightarrow> session \<Rightarrow> error + session" where
  "Model_addUpdate mcls u s = Session_addUpdate s (u\<lparr>u_meta := Some (modelName mcls)\<rparr>)"

text \<open>
  \<open>forEach\<close> with a callback that works on the session: the array is built first, from
  the state tree at the call, then the callback runs on each element in turn. A throw
  stops the loop and leaves the session as it is at that moment.
\<close>

fun forEach_throwing ::
    "('a \<Rightarrow> 'w \<Rightarrow> error option \<times> 'w) \<Rightarrow> 'a list \<Rightarrow> 'w \<Rightarrow> error option \<times> 'w" where
  "forEach_throwing func [] w = (None, w)"
| "forEach_throwing func (x # xs) w =
     (case func x w of
        (Some e, w1) \<Rightarrow> (Some e, w1)
      | (None, w1) \<Rightarrow> forEach_throwing func xs w1)"

definition QuerySet_forEach ::
    "state_tree \<Rightarrow> QuerySet \<Rightarrow> (entity \<Rightarrow> 'w \<Rightarrow> error option \<times> 'w) \<Rightarrow> 'w \<Rightarrow> error option \<times> 'w" where
  "QuerySet_forEach st q func w =
     (let arr = (if priv_withRefs q then map ref_entity (QuerySet_toRefArray st q)
                 else QuerySet_toModelArray st q)
      in forEach_throwing func arr w)"

definition QuerySet_update :: "session \<Rightarrow> QuerySet \<Rightarrow> rawrec \<Rightarrow> error + session" where
  "QuerySet_update s q mergeObj =
     Model_addUpdate (modelClass q)
       \<lparr>u_type = UPDATE, u_payload = UpdatePayload (idArr q) mergeObj, u_meta = None\<rparr> s"

text \<open>
  \<open>model => model._onDelete()\<close>: the hook hands its records to \<open>addUpdate\<close> one after the
  other; on anything but a model instance the method is missing.
\<close>

definition addUpdate_each :: "update_rec \<Rightarrow> session \<Rightarrow> error option \<times> session" where
  "addUpdate_each u s = (case Session_addUpdate s u of Inl e \<Rightarrow> (Some e, s) | Inr s1 \<Rightarrow> (None, s1))"

fun call_onDelete :: "entity \<Rightarrow> session \<Rightarrow> error option \<times> session" where
  "call_onDelete (Wrapped m) s = forEach_throwing addUpdate_each (onDelete m) s"
| "call_onDelete e s = (Some TypeError, s)"

definition QuerySet_delete :: "session \<Rightarrow> QuerySet \<Rightarrow> error option \<times> session" where
  "QuerySet_delete s q =
     (case Model_addUpdate (modelClass q)
             \<lparr>u_type = DELETE, u_payload = DeletePayload (idArr q), u_meta = None\<rparr> s of
        Inl e \<Rightarrow> (Some e, s)
      | Inr s1 \<Rightarrow>
          QuerySet_forEach (state s1) (deref q (QuerySet_withModels q)) call_onDelete s1)"

section \<open>The standard model class\<close>

text \<open>
  Modelled from the spec: the Copy-on-Write Apply Engine and the model-class methods built
  on it (their files are not among the sources). A field-merge update shallow-merges the
  payload into the existing record of each targeted id; a removal deletes the ids from
  the id sequence and from the id-to-record mapping; records are applied in their
  recorded order. \<open>accessId\<close> and \<open>withId\<close> return the raw record and the wrapped entity,
  or the not-found value. The default reducer returns \<open>undefined\<close>.
\<close>

fun set_prop :: "rawrec \<Rightarrow> string \<Rightarrow> val \<Rightarrow> rawrec" where
  "set_prop [] k v = [(k, v)]"
| "set_prop ((k1, v1) # r) k v = (if k1 = k then (k, v) # r else (k1, v1) # set_prop r k v)"

definition shallow_merge :: "rawrec \<Rightarrow> rawrec \<Rightarrow> rawrec" where
  "shallow_merge r mergeObj = foldl (\<lambda>acc (k, v). set_prop acc k v) r mergeObj"

definition apply_update :: "table \<Rightarrow> update_rec \<Rightarrow> table" where
  "apply_update t u =
     (case u_payload u of
        UpdatePayload ids mergeObj \<Rightarrow>
          t\<lparr>itemsById :=
               (\<lambda>i. if i \<in> set ids then map_option (\<lambda>r. shallow_merge r mergeObj) (itemsById t i)
                    else itemsById t i)\<rparr>
      | DeletePayload ids \<Rightarrow>
          t\<lparr>items := filter (\<lambda>i. i \<notin> set ids) (items t),
             itemsById := (\<lambda>i. if i \<in> set ids then None else itemsById t i)\<rparr>
      | OtherPayload p \<Rightarrow> t)"

text \<open>
  Modelled from the spec: \<open>Model.getNextState(tx)\<close> invokes the Apply Engine for the table
  and marks the table's records applied. Within one cycle the table it returns carries
  every record logged for the table so far, each applied once and in recorded order: a
  later call adds the records that came since to what the earlier call computed. That
  table is the session's table with all the table's records of the log applied, which is
  how it is written here; with no record the table is returned as it is.
\<close>

definition Model_getNextState :: "string \<Rightarrow> state_tree \<Rightarrow> transaction \<Rightarrow> table option \<times> transaction" where
  "Model_getNextState mname st tx =
     (map_option (\<lambda>t. foldl apply_update t (Transaction_getUpdatesFor mname tx)) (st mname),
      Transaction_markApplied mname tx)"

definition Model_accessId :: "string \<Rightarrow> state_tree \<Rightarrow> val \<Rightarrow> rawrec option" where
  "Model_accessId mname st i = (case st mname of None \<Rightarrow> None | Some t \<Rightarrow> itemsById t i)"

definition Model_withId ::
    "string \<Rightarrow> string \<Rightarrow> (rawrec \<Rightarrow> update_rec list) \<Rightarrow> state_tree \<Rightarrow> val \<Rightarrow> model option" where
  "Model_withId mname idAttr hook st i =
     map_option (\<lambda>r. \<lparr>getId = get_prop r idAttr, onDelete = hook r, m_ref = r\<rparr>)
       (Model_accessId mname st i)"

definition Model_reducer ::
    "table option \<Rightarrow> action option \<Rightarrow> state_tree \<Rightarrow> transaction \<Rightarrow> table option \<times> transaction" where
  "Model_reducer modelState act st tx = (None, tx)"

definition Model :: "string \<Rightarrow> string \<Rightarrow> (rawrec \<Rightarrow> update_rec list) \<Rightarrow> model_class" where
  "Model mname idAttr hook =
     \<lparr>modelName = mname, idAttribute = idAttr,
      accessId = Model_accessId mname,
      withId = Model_withId mname idAttr hook,
      reducer = Model_reducer,
      getNextState = Model_getNextState mname,
      updateReducer = (\<lambda>tx. apply_update)\<rparr>"

section \<open>Scenario: the table Book\<close>

text \<open>The table \<open>Book\<close> of the spec's scenarios: ids 1, 2, 3 with ratings 3, 5, 4.\<close>

definition book :: "int \<Rightarrow> int \<Rightarrow> rawrec" where
  "book i rating = [(''id'', VNum i), (''rating'', VNum rating)]"

definition bookTable :: table where
  "bookTable =
     \<lparr>items = [VNum 1, VNum 2, VNum 3],
      itemsById = map_of [(VNum 1, book 1 3), (VNum 2, book 2 5), (VNum 3, book 3 4)]\<rparr>"

definition bookState :: state_tree where
  "bookState = (\<lambda>n. None)(''Book'' := Some bookTable)"

definition Book :: model_class where
  "Book = Model ''Book'' ''id'' (\<lambda>r. [])"

definition bookSession :: "bool \<Rightarrow> session" where
  "bookSession mutating =
     \<lparr>state = bookState, action = None, withMutations = mutating,
      currentTx = new_Transaction, sessionBoundModels = [Book], modelData = (\<lambda>n. False)\<rparr>"

definition allBooks :: QuerySet where
  "allBooks = QuerySet_constructor Book [VNum 1, VNum 2, VNum 3] None"

definition allBookRefs :: QuerySet where
  "allBookRefs = deref allBooks (QuerySet_withRefs allBooks)"

text \<open>A removal record for book 2, and a session whose log holds it.\<close>

definition deleteBook2 :: update_rec where
  "deleteBook2 = \<lparr>u_type = DELETE, u_payload = DeletePayload [VNum 2], u_meta = Some ''Book''\<rparr>"

definition bookSessionWithDelete :: session where
  "bookSessionWithDelete =
     (bookSession False)\<lparr>currentTx := Transaction_addUpdate deleteBook2 new_Transaction\<rparr>"

section \<open>Invariants of a QuerySet over its table\<close>

text \<open>
  The invariants of a QuerySet over its table: every id resolves to a raw record; the
  record found under an id carries that id in the id attribute; the wrapped entity found
  under an id answers \<open>getId()\<close> with that id.
\<close>

definition refs_resolved :: "state_tree \<Rightarrow> QuerySet \<Rightarrow> bool" where
  "refs_resolved st q = list_all (\<lambda>i. accessId (modelClass q) st i \<noteq> None) (idArr q)"

definition refs_consistent :: "state_tree \<Rightarrow> QuerySet \<Rightarrow> bool" where
  "refs_consistent st q =
     list_all (\<lambda>i. case accessId (modelClass q) st i of
                     None \<Rightarrow> False
                   | Some r \<Rightarrow> get_prop r (idAttribute (modelClass q)) = i) (idArr q)"

definition models_consistent :: "state_tree \<Rightarrow> QuerySet \<Rightarrow> bool" where
  "models_consistent st q =
     list_all (\<lambda>i. case withId (modelClass q) st i of
                     None \<Rightarrow> False
                   | Some m \<Rightarrow> getId m = i) (idArr q)"

section \<open>Scenario: a test function and a cascading hook on Book\<close>

text \<open>
  A test function that tells the two views apart: on a wrapped entity it holds unless the
  id is 2, on a raw record it holds when the id is 2.
\<close>

definition viewTest :: "entity \<Rightarrow> bool" where
  "viewTest e =
     (case e of
        Wrapped m \<Rightarrow> getId m \<noteq> VNum 2
      | Ref r \<Rightarrow> get_prop r ''id'' = VNum 2
      | Missing \<Rightarrow> False)"

text \<open>
  The records that the \<open>_onDelete\<close> hooks of a list of entities enqueue, in order, up to
  the first element that has no such method.
\<close>

fun hookRecords :: "entity list \<Rightarrow> update_rec list" where
  "hookRecords [] = []"
| "hookRecords (Wrapped m # es) = onDelete m @ hookRecords es"
| "hookRecords (e # es) = []"

text \<open>
  A Book class whose \<open>_onDelete\<close> hook cascades: it enqueues the removal of the book's row
  in the link table \<open>BookAuthors\<close>.
\<close>

definition cascade :: "rawrec \<Rightarrow> update_rec list" where
  "cascade r = [\<lparr>u_type = DELETE, u_payload = DeletePayload [get_prop r ''id''],
                u_meta = Some ''BookAuthors''\<rparr>]"

definition CascadingBook :: model_class where
  "CascadingBook = Model ''Book'' ''id'' cascade"

definition cascadingSession :: session where
  "cascadingSession = (bookSession False)\<lparr>sessionBoundModels := [CascadingBook]\<rparr>"

definition laterBooks :: QuerySet where
  "laterBooks = QuerySet_constructor CascadingBook [VNum 2, VNum 3] None"

section \<open>Scenario: a library of books, authors and publishers\<close>

text \<open>
  Three tables in registration order. \<open>Book\<close> has no user reducer and the log holds two
  removal records for it. \<open>Author\<close> has a user reducer that builds the next table itself:
  it returns the table it was given with author 2 added, and it does not consume the
  field-merge for author 1 that the log holds. \<open>Publisher\<close> has a user reducer that returns
  the table it was given (\<open>return state\<close>), and no record. The session has an action, so
  reducers run.
\<close>

definition deleteBook3 :: update_rec where
  "deleteBook3 = \<lparr>u_type = DELETE, u_payload = DeletePayload [VNum 3], u_meta = Some ''Book''\<rparr>"

definition authorTable :: table where
  "authorTable =
     \<lparr>items = [VNum 1],
      itemsById = map_of [(VNum 1, [(''id'', VNum 1), (''name'', VStr ''Ann'')])]\<rparr>"

definition renameAuthor1 :: update_rec where
  "renameAuthor1 =
     \<lparr>u_type = UPDATE, u_payload = UpdatePayload [VNum 1] [(''name'', VStr ''Bob'')],
      u_meta = Some ''Author''\<rparr>"

definition cid :: rawrec where
  "cid = [(''id'', VNum 2), (''name'', VStr ''Cid'')]"

definition addAuthor2 ::
    "table option \<Rightarrow> action option \<Rightarrow> state_tree \<Rightarrow> transaction \<Rightarrow> table option \<times> transaction" where
  "addAuthor2 modelState act st tx =
     (map_option
        (\<lambda>t. \<lparr>items = items t @ [VNum 2], itemsById = (itemsById t)(VNum 2 \<mapsto> cid)\<rparr>)
        modelState,
      tx)"

definition returnState ::
    "table option \<Rightarrow> action option \<Rightarrow> state_tree \<Rightarrow> transaction \<Rightarrow> table option \<times> transaction" where
  "returnState modelState act st tx = (modelState, tx)"

definition Author :: model_class where
  "Author = (Model ''Author'' ''id'' (\<lambda>r. []))\<lparr>reducer := addAuthor2\<rparr>"

definition publisherTable :: table where
  "publisherTable =
     \<lparr>items = [VNum 1],
      itemsById = map_of [(VNum 1, [(''id'', VNum 1), (''name'', VStr ''Acme'')])]\<rparr>"

definition Publisher :: model_class where
  "Publisher = (Model ''Publisher'' ''id'' (\<lambda>r. []))\<lparr>reducer := returnState\<rparr>"

definition libraryState :: state_tree where
  "libraryState = bookState(''Author'' := Some authorTable, ''Publisher'' := Some publisherTable)"

definition libraryLog :: transaction where
  "libraryLog =
     Transaction_addUpdate renameAuthor1
       (Transaction_addUpdate deleteBook3 (Transaction_addUpdate deleteBook2 new_Transaction))"

definition librarySession :: session where
  "librarySession =
     \<lparr>state = libraryState, action = Some [(''type'', VStr ''TICK'')], withMutations = False,
      currentTx = libraryLog, sessionBoundModels = [Book, Author, Publisher],
      modelData = (\<lambda>n. False)\<rparr>"

section \<open>Stating what the Apply Engine leaves of a table\<close>

text \<open>
  The table of a state tree with all the records that the log holds for it applied in
  recorded order; and whether one of a list of records removes an id.
\<close>

definition withRecordsApplied :: "state_tree \<Rightarrow> string \<Rightarrow> transaction \<Rightarrow> table option" where
  "withRecordsApplied st mname tx =
     map_option (\<lambda>t. foldl apply_update t (Transaction_getUpdatesFor mname tx)) (st mname)"

definition removes :: "update_rec list \<Rightarrow> val \<Rightarrow> bool" where
  "removes us i =
     list_ex (\<lambda>u. case u_payload u of DeletePayload ids \<Rightarrow> i \<in> set ids | _ \<Rightarrow> False) us"

section \<open>Stating the order of a sorted QuerySet\<close>












section \<open>Scenario: tables with equal and with mixed ratings\<close>










text \<open>
  \<open>StringToNumber\<close> on the strings of the scenarios, which are words such as \<open>'abc'\<close>: a
  string that is no numeric literal converts to \<open>NaN\<close>.
\<close>

definition wordToNumber :: "string \<Rightarrow> jsnum" where
  "wordToNumber s = NaN"



section \<open>Unfolding the definitions on concrete inputs\<close>

lemmas ex_defs = allBookRefs_def allBooks_def Book_def Model_def bookState_def bookTable_def
  book_def bookSession_def deleteBook2_def bookSessionWithDelete_def

lemmas qs_defs = QuerySet_filter_def QuerySet_exclude_def QuerySet_filterOrExclude_def
  QuerySet_orderBy_def priv_new_def QuerySet_constructor_def Object_assign_def
  QuerySet_withRefs_def QuerySet_withModels_def deref_def QuerySet_toRefArray_def
  QuerySet_toModelArray_def QuerySet_at_def func_of_def lodash_filter_def lodash_reject_def
  getIdFunc_ref_def get_prop_def lodash_matches_def mapValues_def normalizeEntity_def
  Model_accessId_def Model_withId_def lodash_property_def baseProperty_def array_get_def
  ref_entity_def model_entity_def

lemmas sort_defs = lodash_orderBy_def baseSortBy_def compareMultiple_def compareAscending_def
  js_gt_def compareCriteria.simps


lemmas session_defs = Session_getNextState_def Session_addUpdate_def Session_getState_def
  Session_boundModel_def Session_updates_def Session_getUpdatesFor_def runReducers_of_def
  reducerPass_def unappliedPass_def reducerStep_def unappliedStep_def ops_set_def

lemmas tx_defs = new_Transaction_def Transaction_addUpdate_def Transaction_getUpdatesFor_def
  unappliedFor_def Transaction_getUnappliedUpdatesByModel_def Transaction_markApplied_def

lemmas model_defs = Model_getNextState_def Model_reducer_def apply_update_def shallow_merge_def

lemmas lib_defs = librarySession_def libraryState_def libraryLog_def Author_def Publisher_def
  returnState_def addAuthor2_def cid_def renameAuthor1_def authorTable_def publisherTable_def
  deleteBook3_def


text \<open>Field names of the scenarios.\<close>

lemma key_of_Field: "plain_key s \<Longrightarrow> key_of (Field s) = s"
  by (simp add: Field_inverse)

lemma scenario_keys: "key_of (Field ''rating'') = ''rating''" "key_of (Field ''id'') = ''id''"
  by (simp_all add: key_of_Field plain_key_def Object_prototype_names_def)

section \<open>Lemmas on filtering and id extraction\<close>

lemma map_throwing_length: "map_throwing f xs = Inr ys \<Longrightarrow> length ys = length xs"
  by (induction xs arbitrary: ys) (auto split: sum.splits)


lemma getIds_of_filtered_refs:
  "list_all (\<lambda>i. case look i of None \<Rightarrow> False | Some r \<Rightarrow> get_prop r a = i) ids \<Longrightarrow>
   map_throwing (getIdFunc_ref a) (filter P (map look ids)) = Inr (filter (\<lambda>i. P (look i)) ids)"
  by (induction ids) (auto simp: getIdFunc_ref_def split: option.splits)

lemma getIds_of_filtered_models:
  "list_all (\<lambda>i. case look i of None \<Rightarrow> False | Some m \<Rightarrow> getId m = i) ids \<Longrightarrow>
   map_throwing getIdFunc_model (filter P (map (\<lambda>i. model_entity (look i)) ids))
     = Inr (filter (\<lambda>i. P (model_entity (look i))) ids)"
  by (induction ids) (auto simp: model_entity_def split: option.splits)

lemma toModelArray_models:
  "\<not> priv_withRefs q \<Longrightarrow>
   QuerySet_toModelArray st q = map (\<lambda>i. model_entity (withId (modelClass q) st i)) (idArr q)"
proof -
  assume w: "\<not> priv_withRefs q"
  have "map (\<lambda>idx. model_entity (withId (modelClass q) st (array_get (idArr q) (int idx)))) [0..<length (idArr q)]
      = map (\<lambda>idx. model_entity (withId (modelClass q) st (idArr q ! idx))) [0..<length (idArr q)]"
    by (rule map_cong) (auto simp: array_get_def)
  also have "\<dots> = map (\<lambda>i. model_entity (withId (modelClass q) st i)) (map (\<lambda>idx. idArr q ! idx) [0..<length (idArr q)])"
    by (simp add: comp_def)
  also have "\<dots> = map (\<lambda>i. model_entity (withId (modelClass q) st i)) (idArr q)"
    by (simp add: map_nth)
  finally show ?thesis using w by (simp add: QuerySet_toModelArray_def QuerySet_at_def)
qed

lemma func_of_filter: "func_of ex xs P = filter (\<lambda>x. P x \<noteq> ex) xs"
  by (cases ex) (auto simp: func_of_def lodash_filter_def lodash_reject_def intro: filter_cong)

lemma nonfunction_nonobject:
  "typeof p \<noteq> ''function'' \<Longrightarrow> typeof p \<noteq> ''object'' \<Longrightarrow>
   QuerySet_filterOrExclude st q p ex =
     (case map_throwing (getIdFunc_ref (idAttribute (modelClass q)))
             (func_of ex (QuerySet_toRefArray st q) (lodash_iteratee p)) of
        Inl e \<Rightarrow> Inl e
      | Inr newIdArr \<Rightarrow> Inr (priv_new q newIdArr (Some \<lparr>withRefs = Some False\<rparr>)))"
  by (cases p) (simp_all add: QuerySet_filterOrExclude_def)

lemma getIds_of_resolved:
  "list_all (\<lambda>i. look i \<noteq> None) ids \<Longrightarrow>
   \<exists>ys. map_throwing (getIdFunc_ref a) (filter P (map look ids)) = Inr ys"
  by (induction ids) (auto simp: getIdFunc_ref_def split: option.splits)

lemma lodash_iteratee_PObject: "lodash_iteratee (PObject source) = lodash_matches source"
  by (rule ext) simp

lemma getIds_partition:
  "map_throwing f (filter P xs) = Inr ys \<Longrightarrow> map_throwing f (filter (\<lambda>x. \<not> P x) xs) = Inr zs \<Longrightarrow>
   length ys + length zs = length xs"
  using map_throwing_length [of f "filter P xs" ys] map_throwing_length [of f "filter (\<lambda>x. \<not> P x) xs" zs]
    sum_length_filter_compl [of P xs] by simp

lemma books_consistent:
  "refs_consistent bookState allBooks" "refs_consistent bookState allBookRefs"
  "models_consistent bookState allBooks" "models_consistent bookState allBookRefs"
  "refs_resolved bookState allBooks"
  by (simp_all add: refs_consistent_def models_consistent_def refs_resolved_def ex_defs qs_defs)

section \<open>View mode of the results of filter, exclude and orderBy\<close>

text \<open>
  Claim C2 says that the QuerySet returned by \<open>filter\<close>, \<open>exclude\<close> and \<open>orderBy\<close> has the
  \<open>withRefs\<close> flag on. On the raw-record view of all books the three results have the flag
  off.
\<close>

theorem filter_exclude_orderBy_not_raw_mode:
  "priv_withRefs allBookRefs
   \<and> QuerySet_filter bookState allBookRefs (PObject [(''rating'', LVal (VNum 5))])
       = Inr (QuerySet_constructor Book [VNum 2] (Some \<lparr>withRefs = Some False\<rparr>))
   \<and> \<not> priv_withRefs (QuerySet_constructor Book [VNum 2] (Some \<lparr>withRefs = Some False\<rparr>))
   \<and> QuerySet_exclude bookState allBookRefs (PObject [(''rating'', LVal (VNum 5))])
       = Inr (QuerySet_constructor Book [VNum 1, VNum 3] (Some \<lparr>withRefs = Some False\<rparr>))
   \<and> \<not> priv_withRefs (QuerySet_constructor Book [VNum 1, VNum 3] (Some \<lparr>withRefs = Some False\<rparr>))
   \<and> QuerySet_orderBy wordToNumber bookState allBookRefs [IField (Field ''rating'')] None
       = Inr (QuerySet_constructor Book [VNum 1, VNum 3, VNum 2] (Some \<lparr>withRefs = Some False\<rparr>))
   \<and> \<not> priv_withRefs
         (QuerySet_constructor Book [VNum 1, VNum 3, VNum 2] (Some \<lparr>withRefs = Some False\<rparr>))"
  by (simp add: ex_defs qs_defs sort_defs scenario_keys upt_rec)

text \<open>
  Claim C2, amended: for every QuerySet, whatever its view mode, a QuerySet returned by
  \<open>filter\<close>, \<open>exclude\<close> or \<open>orderBy\<close> is in wrapped-entity view mode: its \<open>withRefs\<close> flag
  is off, set by the explicit option \<open>{ withRefs: false }\<close>.
\<close>

theorem filter_exclude_orderBy_wrapped_mode:
  "(QuerySet_filterOrExclude st q p ex = Inr q1 \<longrightarrow>
      \<not> priv_withRefs q1 \<and> priv_opts q1 = Some \<lparr>withRefs = Some False\<rparr>)
   \<and> (QuerySet_orderBy StringToNumber st q its ords = Inr q2 \<longrightarrow>
      \<not> priv_withRefs q2 \<and> priv_opts q2 = Some \<lparr>withRefs = Some False\<rparr>)"
  by (auto simp: QuerySet_filterOrExclude_def QuerySet_orderBy_def priv_new_def
      QuerySet_constructor_def Object_assign_def Let_def split: sum.splits)

theorem filter_exclude_orderBy_wrapped_mode_witness:
  "priv_withRefs allBookRefs
   \<and> QuerySet_filterOrExclude bookState allBookRefs (PObject [(''rating'', LVal (VNum 5))]) True
       = Inr (QuerySet_constructor Book [VNum 1, VNum 3] (Some \<lparr>withRefs = Some False\<rparr>))
   \<and> QuerySet_orderBy wordToNumber bookState allBookRefs [IField (Field ''rating'')] (Some [Desc])
       = Inr (QuerySet_constructor Book [VNum 2, VNum 3, VNum 1] (Some \<lparr>withRefs = Some False\<rparr>))
   \<and> \<not> priv_withRefs (QuerySet_constructor Book [VNum 1, VNum 3] (Some \<lparr>withRefs = Some False\<rparr>))
   \<and> \<not> priv_withRefs
         (QuerySet_constructor Book [VNum 2, VNum 3, VNum 1] (Some \<lparr>withRefs = Some False\<rparr>))"
proof -
  have f: "QuerySet_filterOrExclude bookState allBookRefs (PObject [(''rating'', LVal (VNum 5))]) True
       = Inr (QuerySet_constructor Book [VNum 1, VNum 3] (Some \<lparr>withRefs = Some False\<rparr>))"
    by (simp add: ex_defs qs_defs)
  have g: "QuerySet_orderBy wordToNumber bookState allBookRefs [IField (Field ''rating'')] (Some [Desc])
       = Inr (QuerySet_constructor Book [VNum 2, VNum 3, VNum 1] (Some \<lparr>withRefs = Some False\<rparr>))"
    by (simp add: ex_defs qs_defs sort_defs scenario_keys upt_rec)
  have r: "priv_withRefs allBookRefs"
    by (simp add: ex_defs qs_defs)
  from filter_exclude_orderBy_wrapped_mode
    [of bookState allBookRefs "PObject [(''rating'', LVal (VNum 5))]" True
        "QuerySet_constructor Book [VNum 1, VNum 3] (Some \<lparr>withRefs = Some False\<rparr>)"
        wordToNumber "[IField (Field ''rating'')]" "Some [Desc]"
        "QuerySet_constructor Book [VNum 2, VNum 3, VNum 1] (Some \<lparr>withRefs = Some False\<rparr>)"]
  show ?thesis using f g r by simp
qed

section \<open>Toggling the view mode\<close>

text \<open>
  Claim C8: view-mode toggling is idempotent. For every QuerySet \<open>Q\<close>, the getter
  \<open>withRefs\<close> read on the QuerySet that \<open>Q.withRefs\<close> gave returns that very object
  (\<open>return this\<close>), and \<open>withRefs\<close> returns \<open>this\<close> whenever the flag is already on;
  symmetrically for \<open>withModels\<close> and the flag off. The result has the flag asked for and
  represents the same id sequence of the same model class.
\<close>

theorem withRefs_withModels_idempotent:
  "QuerySet_withRefs (deref q (QuerySet_withRefs q)) = This
   \<and> QuerySet_withModels (deref q (QuerySet_withModels q)) = This
   \<and> (priv_withRefs q \<longrightarrow> QuerySet_withRefs q = This)
   \<and> (\<not> priv_withRefs q \<longrightarrow> QuerySet_withModels q = This)
   \<and> priv_withRefs (deref q (QuerySet_withRefs q))
   \<and> \<not> priv_withRefs (deref q (QuerySet_withModels q))
   \<and> idArr (deref q (QuerySet_withRefs q)) = idArr q
   \<and> idArr (deref q (QuerySet_withModels q)) = idArr q
   \<and> modelClass (deref q (QuerySet_withRefs q)) = modelClass q
   \<and> modelClass (deref q (QuerySet_withModels q)) = modelClass q"
  by (simp add: QuerySet_withRefs_def QuerySet_withModels_def deref_def priv_new_def
      QuerySet_constructor_def Object_assign_def)

theorem withRefs_withModels_idempotent_witness:
  "\<not> priv_withRefs allBooks \<and> QuerySet_withModels allBooks = This
   \<and> priv_withRefs allBookRefs \<and> QuerySet_withRefs allBookRefs = This
   \<and> idArr allBookRefs = [VNum 1, VNum 2, VNum 3]"
  using withRefs_withModels_idempotent [of allBooks]
    withRefs_withModels_idempotent [of allBookRefs]
  by (simp add: allBookRefs_def allBooks_def QuerySet_constructor_def)

section \<open>Sessions that mutate in place\<close>

text \<open>
  Claim C9: on a session with \<open>withMutations\<close>, \<open>addUpdate\<close> of a record that names a bound
  model applies the record at once to the live model state through the model's
  \<open>updateReducer\<close> and leaves the update log alone; on a session without, it appends the
  record to the update log. \<open>getNextState\<close> on a mutating session returns the current state
  and changes nothing, whatever the reducers and the log are.
\<close>

theorem addUpdate_mutating_or_logged:
  "(withMutations s \<and> u_meta u = Some n \<and> Session_boundModel s n = Some mc
      \<and> state s n = Some t \<longrightarrow>
      Session_addUpdate s u =
        Inr (s\<lparr>state := (state s)(n := Some (updateReducer mc None t u))\<rparr>))
   \<and> (\<not> withMutations s \<longrightarrow>
        Session_addUpdate s u =
          Inr (s\<lparr>currentTx := (currentTx s)
                 \<lparr>updates := updates (currentTx s) @ [\<lparr>update = u, applied = False\<rparr>]\<rparr>\<rparr>))
   \<and> (withMutations s \<longrightarrow> Session_getNextState s userOpts = (state s, s))"
  by (simp add: Session_addUpdate_def Session_getState_def Transaction_addUpdate_def
      Session_getNextState_def)

theorem addUpdate_mutating_or_logged_witness:
  "withMutations (bookSession True) \<and> u_meta deleteBook2 = Some ''Book''
   \<and> Session_boundModel (bookSession True) ''Book'' = Some Book
   \<and> state (bookSession True) ''Book'' = Some bookTable
   \<and> Session_addUpdate (bookSession True) deleteBook2 =
       Inr ((bookSession True)\<lparr>state := bookState(''Book'' := Some (apply_update bookTable deleteBook2))\<rparr>)
   \<and> items (apply_update bookTable deleteBook2) = [VNum 1, VNum 3]
   \<and> \<not> withMutations (bookSession False)
   \<and> map_sum id Session_updates (Session_addUpdate (bookSession False) deleteBook2)
       = Inr [deleteBook2]
   \<and> Session_getNextState (bookSession True) None = (bookState, bookSession True)"
  using addUpdate_mutating_or_logged
      [of "bookSession True" deleteBook2 "''Book''" Book bookTable None]
    addUpdate_mutating_or_logged
      [of "bookSession False" deleteBook2 "''Book''" Book bookTable None]
  by (simp add: ex_defs session_defs tx_defs model_defs)

section \<open>What getNextState leaves in the session\<close>

text \<open>
  Claim C10: on a session without mutations, \<open>getNextState\<close> does not assign the session's
  \<open>state\<close>: afterwards the session differs from before in \<open>currentTx\<close> only, which is a
  fresh empty Transaction. So the session still holds the previous state tree, and reports
  no recorded updates.
\<close>

theorem getNextState_keeps_state_fresh_log:
  "\<not> withMutations s \<Longrightarrow>
     snd (Session_getNextState s userOpts) = s\<lparr>currentTx := new_Transaction\<rparr>
   \<and> state (snd (Session_getNextState s userOpts)) = state s
   \<and> currentTx (snd (Session_getNextState s userOpts)) = new_Transaction
   \<and> Session_updates (snd (Session_getNextState s userOpts)) = []
   \<and> Session_getUpdatesFor (snd (Session_getNextState s userOpts)) mname = []
   \<and> Session_getState (snd (Session_getNextState s userOpts)) mname = Session_getState s mname"
  by (simp add: Session_getNextState_def Let_def Session_updates_def Session_getUpdatesFor_def
      Session_getState_def new_Transaction_def Transaction_getUpdatesFor_def)

theorem getNextState_keeps_state_fresh_log_witness:
  "\<not> withMutations bookSessionWithDelete
   \<and> Session_updates bookSessionWithDelete = [deleteBook2]
   \<and> map_option items (fst (Session_getNextState bookSessionWithDelete None) ''Book'')
       = Some [VNum 1, VNum 3]
   \<and> map_option items (state (snd (Session_getNextState bookSessionWithDelete None)) ''Book'')
       = Some [VNum 1, VNum 2, VNum 3]
   \<and> state (snd (Session_getNextState bookSessionWithDelete None)) = bookState
   \<and> currentTx (snd (Session_getNextState bookSessionWithDelete None)) = new_Transaction
   \<and> Session_updates (snd (Session_getNextState bookSessionWithDelete None)) = []
   \<and> Session_getUpdatesFor (snd (Session_getNextState bookSessionWithDelete None)) ''Book'' = []"
proof -
  have h: "\<not> withMutations bookSessionWithDelete"
    by (simp add: bookSessionWithDelete_def bookSession_def)
  note t = getNextState_keeps_state_fresh_log [OF h, of None "''Book''"]
  have a: "Session_updates bookSessionWithDelete = [deleteBook2]"
    by (simp add: bookSessionWithDelete_def Session_updates_def tx_defs)
  have b: "map_option items (fst (Session_getNextState bookSessionWithDelete None) ''Book'')
      = Some [VNum 1, VNum 3]"
    by (simp add: ex_defs session_defs tx_defs model_defs)
  have c: "state bookSessionWithDelete = bookState"
    by (simp add: bookSessionWithDelete_def bookSession_def)
  have d: "map_option items (bookState ''Book'') = Some [VNum 1, VNum 2, VNum 3]"
    by (simp add: bookState_def bookTable_def)
  show ?thesis using h t a b c d
    by (simp add: Session_updates_def Session_getUpdatesFor_def new_Transaction_def
        Transaction_getUpdatesFor_def)
qed

section \<open>What filter and exclude evaluate, and in which order\<close>

text \<open>
  Claim C3: on a QuerySet whose ids resolve consistently, \<open>filter\<close> and \<open>exclude\<close> with a
  function apply the function to the wrapped entities when the view mode is
  wrapped-entity and to the raw records when it is raw-record; with a field-match mapping
  they match the raw records whatever the view mode. The new id sequence is the
  receiver's, filtered: the surviving ids keep their relative order.
\<close>

theorem filter_view_and_order:
  "(\<not> priv_withRefs q \<and> models_consistent st q \<longrightarrow>
      QuerySet_filterOrExclude st q (PFunction f) ex =
        Inr (priv_new q (filter (\<lambda>i. f (Wrapped (the (withId (modelClass q) st i))) \<noteq> ex) (idArr q))
               (Some \<lparr>withRefs = Some False\<rparr>)))
   \<and> (priv_withRefs q \<and> refs_consistent st q \<longrightarrow>
      QuerySet_filterOrExclude st q (PFunction f) ex =
        Inr (priv_new q (filter (\<lambda>i. f (Ref (the (accessId (modelClass q) st i))) \<noteq> ex) (idArr q))
               (Some \<lparr>withRefs = Some False\<rparr>)))
   \<and> (refs_consistent st q \<longrightarrow>
      QuerySet_filterOrExclude st q (PObject lookupObj) ex =
        Inr (priv_new q
               (filter (\<lambda>i. lodash_matches (mapValues lookupObj normalizeEntity)
                               (Some (the (accessId (modelClass q) st i))) \<noteq> ex) (idArr q))
               (Some \<lparr>withRefs = Some False\<rparr>)))"
proof (intro conjI impI)
  assume a: "\<not> priv_withRefs q \<and> models_consistent st q"
  then have m: "list_all (\<lambda>i. case withId (modelClass q) st i of None \<Rightarrow> False | Some m \<Rightarrow> getId m = i) (idArr q)"
    by (simp add: models_consistent_def)
  have e: "filter (\<lambda>i. f (model_entity (withId (modelClass q) st i)) \<noteq> ex) (idArr q)
      = filter (\<lambda>i. f (Wrapped (the (withId (modelClass q) st i))) \<noteq> ex) (idArr q)"
    using m by (intro filter_cong) (auto simp: list_all_iff model_entity_def split: option.splits)
  show "QuerySet_filterOrExclude st q (PFunction f) ex =
        Inr (priv_new q (filter (\<lambda>i. f (Wrapped (the (withId (modelClass q) st i))) \<noteq> ex) (idArr q))
               (Some \<lparr>withRefs = Some False\<rparr>))"
    using a e getIds_of_filtered_models [OF m, of "\<lambda>x. f x \<noteq> ex"]
    by (simp add: QuerySet_filterOrExclude_def toModelArray_models func_of_filter)
next
  assume a: "priv_withRefs q \<and> refs_consistent st q"
  then have m: "list_all (\<lambda>i. case accessId (modelClass q) st i of None \<Rightarrow> False
       | Some r \<Rightarrow> get_prop r (idAttribute (modelClass q)) = i) (idArr q)"
    by (simp add: refs_consistent_def)
  have e: "filter (\<lambda>i. f (ref_entity (accessId (modelClass q) st i)) \<noteq> ex) (idArr q)
      = filter (\<lambda>i. f (Ref (the (accessId (modelClass q) st i))) \<noteq> ex) (idArr q)"
    using m by (intro filter_cong) (auto simp: list_all_iff ref_entity_def split: option.splits)
  show "QuerySet_filterOrExclude st q (PFunction f) ex =
        Inr (priv_new q (filter (\<lambda>i. f (Ref (the (accessId (modelClass q) st i))) \<noteq> ex) (idArr q))
               (Some \<lparr>withRefs = Some False\<rparr>))"
    using a e getIds_of_filtered_refs [OF m, of "\<lambda>x. f (ref_entity x) \<noteq> ex"]
    by (simp add: QuerySet_filterOrExclude_def QuerySet_toRefArray_def func_of_filter)
next
  assume a: "refs_consistent st q"
  then have m: "list_all (\<lambda>i. case accessId (modelClass q) st i of None \<Rightarrow> False
       | Some r \<Rightarrow> get_prop r (idAttribute (modelClass q)) = i) (idArr q)"
    by (simp add: refs_consistent_def)
  have e: "filter (\<lambda>i. lodash_matches (mapValues lookupObj normalizeEntity) (accessId (modelClass q) st i) \<noteq> ex) (idArr q)
      = filter (\<lambda>i. lodash_matches (mapValues lookupObj normalizeEntity)
                               (Some (the (accessId (modelClass q) st i))) \<noteq> ex) (idArr q)"
    using m by (intro filter_cong) (auto simp: list_all_iff split: option.splits)
  show "QuerySet_filterOrExclude st q (PObject lookupObj) ex =
        Inr (priv_new q
               (filter (\<lambda>i. lodash_matches (mapValues lookupObj normalizeEntity)
                               (Some (the (accessId (modelClass q) st i))) \<noteq> ex) (idArr q))
               (Some \<lparr>withRefs = Some False\<rparr>))"
    using a e getIds_of_filtered_refs [OF m, of "\<lambda>x. lodash_matches (mapValues lookupObj normalizeEntity) x \<noteq> ex"]
    by (simp add: QuerySet_filterOrExclude_def QuerySet_toRefArray_def func_of_filter)
qed

theorem filter_view_and_order_witness:
  "\<not> priv_withRefs allBooks \<and> models_consistent bookState allBooks
   \<and> QuerySet_filterOrExclude bookState allBooks (PFunction viewTest) False
       = Inr (QuerySet_constructor Book [VNum 1, VNum 3] (Some \<lparr>withRefs = Some False\<rparr>))
   \<and> priv_withRefs allBookRefs \<and> refs_consistent bookState allBookRefs
   \<and> QuerySet_filterOrExclude bookState allBookRefs (PFunction viewTest) False
       = Inr (QuerySet_constructor Book [VNum 2] (Some \<lparr>withRefs = Some False\<rparr>))
   \<and> refs_consistent bookState allBooks
   \<and> QuerySet_filterOrExclude bookState allBooks (PObject [(''rating'', LVal (VNum 4))]) True
       = Inr (QuerySet_constructor Book [VNum 1, VNum 2] (Some \<lparr>withRefs = Some False\<rparr>))"
proof -
  have m: "\<not> priv_withRefs allBooks" "priv_withRefs allBookRefs"
    by (simp_all add: ex_defs qs_defs)
  have v: "filter (\<lambda>i. viewTest (Wrapped (the (withId (modelClass allBooks) bookState i))) \<noteq> False) (idArr allBooks)
        = [VNum 1, VNum 3]"
     "filter (\<lambda>i. viewTest (Ref (the (accessId (modelClass allBookRefs) bookState i))) \<noteq> False) (idArr allBookRefs)
        = [VNum 2]"
     "filter (\<lambda>i. lodash_matches (mapValues [(''rating'', LVal (VNum 4))] normalizeEntity)
                               (Some (the (accessId (modelClass allBooks) bookState i))) \<noteq> True) (idArr allBooks)
        = [VNum 1, VNum 2]"
    by (simp_all add: ex_defs qs_defs viewTest_def)
  have n: "priv_new allBooks ids (Some \<lparr>withRefs = Some False\<rparr>)
       = QuerySet_constructor Book ids (Some \<lparr>withRefs = Some False\<rparr>)"
     "priv_new allBookRefs ids (Some \<lparr>withRefs = Some False\<rparr>)
       = QuerySet_constructor Book ids (Some \<lparr>withRefs = Some False\<rparr>)" for ids
    by (simp_all add: ex_defs qs_defs)
  from filter_view_and_order [of allBooks bookState viewTest False "[(''rating'', LVal (VNum 4))]"]
    filter_view_and_order [of allBookRefs bookState viewTest False "[]"]
    filter_view_and_order [of allBooks bookState viewTest True "[(''rating'', LVal (VNum 4))]"]
  show ?thesis using m books_consistent v n by simp
qed

section \<open>Predicates that are neither a function nor a mapping\<close>

text \<open>
  Claim C4 says that \<open>filter\<close> and \<open>exclude\<close> fail on a predicate that is neither a function
  nor a mapping. On all books, \<open>filter('rating')\<close> returns a QuerySet of the three ids,
  \<open>filter(5)\<close> returns an empty QuerySet and \<open>exclude(5)\<close> a QuerySet of all three: no
  error.
\<close>

theorem filter_odd_predicate_returns:
  "QuerySet_filter bookState allBooks (PString (Field ''rating''))
     = Inr (QuerySet_constructor Book [VNum 1, VNum 2, VNum 3] (Some \<lparr>withRefs = Some False\<rparr>))
   \<and> QuerySet_filter bookState allBooks (PNumber 5)
     = Inr (QuerySet_constructor Book [] (Some \<lparr>withRefs = Some False\<rparr>))
   \<and> QuerySet_exclude bookState allBooks (PNumber 5)
     = Inr (QuerySet_constructor Book [VNum 1, VNum 2, VNum 3] (Some \<lparr>withRefs = Some False\<rparr>))"
  by (simp add: ex_defs qs_defs scenario_keys js_String_def digits_of_nat.simps)

text \<open>
  Claim C4, amended: \<open>filter\<close> and \<open>exclude\<close> do not check the shape of the predicate. A
  predicate that is neither a function nor an object is handed to lodash unchanged, which
  reads a field name, a number or a boolean as a property name and \<open>undefined\<close> as the
  identity. Whenever every id of the QuerySet resolves to a record the call returns a
  QuerySet and raises no error; over consistent records it holds the ids whose record
  passes that test (\<open>filter\<close>) or fails it (\<open>exclude\<close>): for a field name the ids whose
  record has a truthy value in that field, for a number or a boolean the ids whose record
  has a truthy value under the key that \<open>String\<close> writes, possibly none.
\<close>

theorem filter_odd_predicate_no_error:
  "(typeof p \<noteq> ''function'' \<and> typeof p \<noteq> ''object'' \<and> refs_resolved st q \<longrightarrow>
      (\<exists>q1. QuerySet_filterOrExclude st q p ex = Inr q1))
   \<and> (typeof p \<noteq> ''function'' \<and> typeof p \<noteq> ''object'' \<and> refs_consistent st q \<longrightarrow>
      QuerySet_filterOrExclude st q p ex =
        Inr (priv_new q
               (filter (\<lambda>i. lodash_iteratee p (accessId (modelClass q) st i) \<noteq> ex) (idArr q))
               (Some \<lparr>withRefs = Some False\<rparr>)))
   \<and> (refs_consistent st q \<longrightarrow>
      QuerySet_filterOrExclude st q (PString key) ex =
        Inr (priv_new q
               (filter (\<lambda>i. truthy (get_prop (the (accessId (modelClass q) st i)) (key_of key)) \<noteq> ex)
                  (idArr q))
               (Some \<lparr>withRefs = Some False\<rparr>)))
   \<and> (refs_consistent st q \<longrightarrow>
      QuerySet_filterOrExclude st q (PNumber n) ex =
        Inr (priv_new q
               (filter (\<lambda>i. truthy (get_prop (the (accessId (modelClass q) st i)) (js_String n)) \<noteq> ex)
                  (idArr q))
               (Some \<lparr>withRefs = Some False\<rparr>)))
   \<and> (refs_consistent st q \<longrightarrow>
      QuerySet_filterOrExclude st q (PBool b) ex =
        Inr (priv_new q
               (filter (\<lambda>i. truthy (get_prop (the (accessId (modelClass q) st i))
                                     (if b then ''true'' else ''false'')) \<noteq> ex)
                  (idArr q))
               (Some \<lparr>withRefs = Some False\<rparr>)))
   \<and> (refs_consistent st q \<longrightarrow>
      QuerySet_filterOrExclude st q PUndefined ex =
        Inr (priv_new q (if ex then [] else idArr q) (Some \<lparr>withRefs = Some False\<rparr>)))"
proof (intro conjI impI)
  assume a: "typeof p \<noteq> ''function'' \<and> typeof p \<noteq> ''object'' \<and> refs_resolved st q"
  then have r: "list_all (\<lambda>i. accessId (modelClass q) st i \<noteq> None) (idArr q)"
    by (simp add: refs_resolved_def)
  from getIds_of_resolved [OF r, of "idAttribute (modelClass q)" "\<lambda>x. lodash_iteratee p x \<noteq> ex"]
  show "\<exists>q1. QuerySet_filterOrExclude st q p ex = Inr q1"
    using a by (auto simp: nonfunction_nonobject QuerySet_toRefArray_def func_of_filter)
next
  assume a: "typeof p \<noteq> ''function'' \<and> typeof p \<noteq> ''object'' \<and> refs_consistent st q"
  then have m: "list_all (\<lambda>i. case accessId (modelClass q) st i of None \<Rightarrow> False
       | Some r \<Rightarrow> get_prop r (idAttribute (modelClass q)) = i) (idArr q)"
    by (simp add: refs_consistent_def)
  show "QuerySet_filterOrExclude st q p ex =
        Inr (priv_new q
               (filter (\<lambda>i. lodash_iteratee p (accessId (modelClass q) st i) \<noteq> ex) (idArr q))
               (Some \<lparr>withRefs = Some False\<rparr>))"
    using a getIds_of_filtered_refs [OF m, of "\<lambda>x. lodash_iteratee p x \<noteq> ex"]
    by (simp add: nonfunction_nonobject QuerySet_toRefArray_def func_of_filter)
next
  assume a: "refs_consistent st q"
  then have m: "list_all (\<lambda>i. case accessId (modelClass q) st i of None \<Rightarrow> False
       | Some r \<Rightarrow> get_prop r (idAttribute (modelClass q)) = i) (idArr q)"
    by (simp add: refs_consistent_def)
  have e: "filter (\<lambda>i. lodash_iteratee (PString key) (accessId (modelClass q) st i) \<noteq> ex) (idArr q)
      = filter (\<lambda>i. truthy (get_prop (the (accessId (modelClass q) st i)) (key_of key)) \<noteq> ex) (idArr q)"
    using m by (intro filter_cong)
      (auto simp: list_all_iff lodash_property_def baseProperty_def split: option.splits)
  show "QuerySet_filterOrExclude st q (PString key) ex =
        Inr (priv_new q
               (filter (\<lambda>i. truthy (get_prop (the (accessId (modelClass q) st i)) (key_of key)) \<noteq> ex)
                  (idArr q))
               (Some \<lparr>withRefs = Some False\<rparr>))"
    using a e getIds_of_filtered_refs [OF m, of "\<lambda>x. lodash_iteratee (PString key) x \<noteq> ex"]
    by (simp add: nonfunction_nonobject QuerySet_toRefArray_def func_of_filter)
next
  assume a: "refs_consistent st q"
  then have m: "list_all (\<lambda>i. case accessId (modelClass q) st i of None \<Rightarrow> False
       | Some r \<Rightarrow> get_prop r (idAttribute (modelClass q)) = i) (idArr q)"
    by (simp add: refs_consistent_def)
  have e: "filter (\<lambda>i. lodash_iteratee (PNumber n) (accessId (modelClass q) st i) \<noteq> ex) (idArr q)
      = filter (\<lambda>i. truthy (get_prop (the (accessId (modelClass q) st i)) (js_String n)) \<noteq> ex) (idArr q)"
    using m by (intro filter_cong)
      (auto simp: list_all_iff baseProperty_def split: option.splits)
  show "QuerySet_filterOrExclude st q (PNumber n) ex =
        Inr (priv_new q
               (filter (\<lambda>i. truthy (get_prop (the (accessId (modelClass q) st i)) (js_String n)) \<noteq> ex)
                  (idArr q))
               (Some \<lparr>withRefs = Some False\<rparr>))"
    using a e getIds_of_filtered_refs [OF m, of "\<lambda>x. lodash_iteratee (PNumber n) x \<noteq> ex"]
    by (simp add: nonfunction_nonobject QuerySet_toRefArray_def func_of_filter)
next
  assume a: "refs_consistent st q"
  then have m: "list_all (\<lambda>i. case accessId (modelClass q) st i of None \<Rightarrow> False
       | Some r \<Rightarrow> get_prop r (idAttribute (modelClass q)) = i) (idArr q)"
    by (simp add: refs_consistent_def)
  let ?key = "if b then ''true'' else ''false''"
  have e: "filter (\<lambda>i. lodash_iteratee (PBool b) (accessId (modelClass q) st i) \<noteq> ex) (idArr q)
      = filter (\<lambda>i. truthy (get_prop (the (accessId (modelClass q) st i)) ?key) \<noteq> ex) (idArr q)"
    using m by (intro filter_cong)
      (auto simp: list_all_iff baseProperty_def split: option.splits)
  show "QuerySet_filterOrExclude st q (PBool b) ex =
        Inr (priv_new q
               (filter (\<lambda>i. truthy (get_prop (the (accessId (modelClass q) st i)) ?key) \<noteq> ex)
                  (idArr q))
               (Some \<lparr>withRefs = Some False\<rparr>))"
    using a e getIds_of_filtered_refs [OF m, of "\<lambda>x. lodash_iteratee (PBool b) x \<noteq> ex"]
    by (simp add: nonfunction_nonobject QuerySet_toRefArray_def func_of_filter)
next
  assume a: "refs_consistent st q"
  then have m: "list_all (\<lambda>i. case accessId (modelClass q) st i of None \<Rightarrow> False
       | Some r \<Rightarrow> get_prop r (idAttribute (modelClass q)) = i) (idArr q)"
    by (simp add: refs_consistent_def)
  have e: "filter (\<lambda>i. lodash_iteratee PUndefined (accessId (modelClass q) st i) \<noteq> ex) (idArr q)
      = (if ex then [] else idArr q)"
    using m by (cases ex) (auto simp: list_all_iff filter_empty_conv filter_id_conv split: option.splits)
  show "QuerySet_filterOrExclude st q PUndefined ex =
        Inr (priv_new q (if ex then [] else idArr q) (Some \<lparr>withRefs = Some False\<rparr>))"
    using a e getIds_of_filtered_refs [OF m, of "\<lambda>x. lodash_iteratee PUndefined x \<noteq> ex"]
    by (simp add: nonfunction_nonobject QuerySet_toRefArray_def func_of_filter)
qed

theorem filter_odd_predicate_no_error_witness:
  "typeof (PString (Field ''rating'')) \<noteq> ''function''
   \<and> typeof (PString (Field ''rating'')) \<noteq> ''object''
   \<and> refs_resolved bookState allBooks \<and> refs_consistent bookState allBooks
   \<and> QuerySet_filterOrExclude bookState allBooks (PString (Field ''rating'')) True
       = Inr (QuerySet_constructor Book [] (Some \<lparr>withRefs = Some False\<rparr>))"
proof -
  have v: "filter (\<lambda>i. truthy (get_prop (the (accessId (modelClass allBooks) bookState i))
                           (key_of (Field ''rating''))) \<noteq> True) (idArr allBooks)
        = []"
    "filter (\<lambda>i. \<not> truthy (lodash_property (Field ''rating'') (accessId (modelClass allBooks) bookState i)))
        (idArr allBooks) = []"
    by (simp_all add: ex_defs qs_defs scenario_keys)
  have n: "priv_new allBooks ids (Some \<lparr>withRefs = Some False\<rparr>)
       = QuerySet_constructor Book ids (Some \<lparr>withRefs = Some False\<rparr>)" for ids
    by (simp add: ex_defs qs_defs)
  from filter_odd_predicate_no_error
    [of "PString (Field ''rating'')" bookState allBooks True "Field ''rating''"]
  show ?thesis using books_consistent v n by simp
qed

section \<open>The partition law\<close>

text \<open>
  Claim C6: for every QuerySet \<open>Q\<close> and every field-match mapping \<open>p\<close>, whenever
  \<open>Q.filter(p)\<close> and \<open>Q.exclude(p)\<close> return, their counts add up to \<open>Q.count()\<close>; and both
  return whenever every id of \<open>Q\<close> resolves to a record.
\<close>

theorem filter_exclude_partition:
  "(QuerySet_filter st q (PObject lookupObj) = Inr qf \<and> QuerySet_exclude st q (PObject lookupObj) = Inr qe
      \<longrightarrow> QuerySet_count qf + QuerySet_count qe = QuerySet_count q)
   \<and> (refs_resolved st q \<longrightarrow>
       (\<exists>qf qe. QuerySet_filter st q (PObject lookupObj) = Inr qf
          \<and> QuerySet_exclude st q (PObject lookupObj) = Inr qe
          \<and> QuerySet_count qf + QuerySet_count qe = QuerySet_count q))"
proof -
  let ?P = "lodash_matches (mapValues lookupObj normalizeEntity)"
  let ?g = "getIdFunc_ref (idAttribute (modelClass q))"
  let ?xs = "QuerySet_toRefArray st q"
  have part: "QuerySet_count qf + QuerySet_count qe = QuerySet_count q"
    if "QuerySet_filter st q (PObject lookupObj) = Inr qf"
      and "QuerySet_exclude st q (PObject lookupObj) = Inr qe" for qf qe
  proof -
    from that obtain ys zs where
      ys: "map_throwing ?g (filter ?P ?xs) = Inr ys" "idArr qf = ys" and
      zs: "map_throwing ?g (filter (\<lambda>x. \<not> ?P x) ?xs) = Inr zs" "idArr qe = zs"
      by (auto simp: QuerySet_filter_def QuerySet_exclude_def QuerySet_filterOrExclude_def
          func_of_def lodash_filter_def lodash_reject_def priv_new_def QuerySet_constructor_def
          lodash_iteratee_PObject split: sum.splits)
    from getIds_partition [OF ys(1) zs(1)] ys(2) zs(2)
    show ?thesis by (simp add: QuerySet_count_def QuerySet_toRefArray_def)
  qed
  have tot: "\<exists>qf qe. QuerySet_filter st q (PObject lookupObj) = Inr qf
          \<and> QuerySet_exclude st q (PObject lookupObj) = Inr qe" if "refs_resolved st q"
  proof -
    from that have r: "list_all (\<lambda>i. accessId (modelClass q) st i \<noteq> None) (idArr q)"
      by (simp add: refs_resolved_def)
    from getIds_of_resolved [OF r, of "idAttribute (modelClass q)" ?P]
      getIds_of_resolved [OF r, of "idAttribute (modelClass q)" "\<lambda>x. \<not> ?P x"]
    show ?thesis
      by (auto simp: QuerySet_filter_def QuerySet_exclude_def QuerySet_filterOrExclude_def
          func_of_def lodash_filter_def lodash_reject_def QuerySet_toRefArray_def
          lodash_iteratee_PObject)
  qed
  show ?thesis using part tot by blast
qed

theorem filter_exclude_partition_witness:
  "refs_resolved bookState allBooks
   \<and> QuerySet_filter bookState allBooks (PObject [(''rating'', LVal (VNum 5))])
       = Inr (QuerySet_constructor Book [VNum 2] (Some \<lparr>withRefs = Some False\<rparr>))
   \<and> QuerySet_exclude bookState allBooks (PObject [(''rating'', LVal (VNum 5))])
       = Inr (QuerySet_constructor Book [VNum 1, VNum 3] (Some \<lparr>withRefs = Some False\<rparr>))
   \<and> QuerySet_count (QuerySet_constructor Book [VNum 2] (Some \<lparr>withRefs = Some False\<rparr>))
      + QuerySet_count (QuerySet_constructor Book [VNum 1, VNum 3] (Some \<lparr>withRefs = Some False\<rparr>))
      = QuerySet_count allBooks
   \<and> QuerySet_count allBooks = 3"
proof -
  have f: "QuerySet_filter bookState allBooks (PObject [(''rating'', LVal (VNum 5))])
       = Inr (QuerySet_constructor Book [VNum 2] (Some \<lparr>withRefs = Some False\<rparr>))"
    by (simp add: ex_defs qs_defs)
  have g: "QuerySet_exclude bookState allBooks (PObject [(''rating'', LVal (VNum 5))])
       = Inr (QuerySet_constructor Book [VNum 1, VNum 3] (Some \<lparr>withRefs = Some False\<rparr>))"
    by (simp add: ex_defs qs_defs)
  have c: "QuerySet_count allBooks = 3"
    by (simp add: QuerySet_count_def ex_defs qs_defs)
  from filter_exclude_partition [of bookState allBooks "[(''rating'', LVal (VNum 5))]"
      "QuerySet_constructor Book [VNum 2] (Some \<lparr>withRefs = Some False\<rparr>)"
      "QuerySet_constructor Book [VNum 1, VNum 3] (Some \<lparr>withRefs = Some False\<rparr>)"]
  show ?thesis using f g c books_consistent by simp
qed

section \<open>delete: the removal record comes before the records of the hooks\<close>

lemma addUpdate_each_logged:
  "\<not> withMutations s \<Longrightarrow>
   forEach_throwing addUpdate_each us s =
     (None, s\<lparr>currentTx := (currentTx s)
        \<lparr>updates := updates (currentTx s) @ map (\<lambda>u. \<lparr>update = u, applied = False\<rparr>) us\<rparr>\<rparr>)"
proof (induction us arbitrary: s)
  case Nil
  then show ?case by simp
next
  case (Cons u us)
  let ?s1 = "s\<lparr>currentTx := Transaction_addUpdate u (currentTx s)\<rparr>"
  have "\<not> withMutations ?s1" using Cons.prems by simp
  from Cons.IH [OF this] Cons.prems show ?case
    by (simp add: addUpdate_each_def Session_addUpdate_def Transaction_addUpdate_def)
qed

lemma hooks_logged:
  "\<not> withMutations s \<Longrightarrow>
   Session_updates (snd (forEach_throwing call_onDelete es s)) = Session_updates s @ hookRecords es
   \<and> state (snd (forEach_throwing call_onDelete es s)) = state s"
proof (induction es arbitrary: s)
  case Nil
  then show ?case by simp
next
  case (Cons e es)
  show ?case
  proof (cases e)
    case (Wrapped m)
    let ?s1 = "s\<lparr>currentTx := (currentTx s)
        \<lparr>updates := updates (currentTx s) @ map (\<lambda>u. \<lparr>update = u, applied = False\<rparr>) (onDelete m)\<rparr>\<rparr>"
    have n: "\<not> withMutations ?s1" using Cons.prems by simp
    have u: "Session_updates ?s1 = Session_updates s @ onDelete m"
      by (simp add: Session_updates_def comp_def)
    from Cons.IH [OF n] u addUpdate_each_logged [OF Cons.prems, of "onDelete m"] Wrapped
    show ?thesis by simp
  qed simp_all
qed

text \<open>
  Claim C5: on a session that logs its updates, \<open>delete()\<close> first appends the removal
  record for the ids of the QuerySet to the update log and only then calls \<open>_onDelete\<close> on
  each wrapped entity: the log afterwards is the log before, then the removal record, then
  the records the hooks enqueued, so every record of a hook comes strictly after the
  removal record for the same ids. The state tree is not touched.
\<close>

theorem delete_logs_removal_before_hooks:
  "\<not> withMutations s \<Longrightarrow>
     Session_updates (snd (QuerySet_delete s q)) =
       Session_updates s
       @ [\<lparr>u_type = DELETE, u_payload = DeletePayload (idArr q),
            u_meta = Some (modelName (modelClass q))\<rparr>]
       @ hookRecords (map (\<lambda>i. model_entity (withId (modelClass q) (state s) i)) (idArr q))
   \<and> state (snd (QuerySet_delete s q)) = state s"
proof -
  assume nm: "\<not> withMutations s"
  let ?del = "\<lparr>u_type = DELETE, u_payload = DeletePayload (idArr q),
            u_meta = Some (modelName (modelClass q))\<rparr>"
  let ?s1 = "s\<lparr>currentTx := Transaction_addUpdate ?del (currentTx s)\<rparr>"
  let ?q1 = "deref q (QuerySet_withModels q)"
  have a: "Model_addUpdate (modelClass q)
             \<lparr>u_type = DELETE, u_payload = DeletePayload (idArr q), u_meta = None\<rparr> s = Inr ?s1"
    using nm by (simp add: Model_addUpdate_def Session_addUpdate_def)
  have q1: "\<not> priv_withRefs ?q1" "idArr ?q1 = idArr q" "modelClass ?q1 = modelClass q"
    by (simp_all add: QuerySet_withModels_def deref_def priv_new_def QuerySet_constructor_def
        Object_assign_def)
  have arr: "QuerySet_forEach (state ?s1) ?q1 call_onDelete ?s1 =
      forEach_throwing call_onDelete
        (map (\<lambda>i. model_entity (withId (modelClass q) (state s) i)) (idArr q)) ?s1"
    using q1 toModelArray_models [OF q1(1), of "state ?s1"] by (simp add: QuerySet_forEach_def)
  have n1: "\<not> withMutations ?s1" using nm by simp
  have u1: "Session_updates ?s1 = Session_updates s @ [?del]"
    by (simp add: Session_updates_def Transaction_addUpdate_def)
  from hooks_logged [OF n1, of "map (\<lambda>i. model_entity (withId (modelClass q) (state s) i)) (idArr q)"]
  show ?thesis using a arr u1 by (simp add: QuerySet_delete_def)
qed

theorem delete_logs_removal_before_hooks_witness:
  "\<not> withMutations cascadingSession
   \<and> Session_updates cascadingSession = []
   \<and> Session_updates (snd (QuerySet_delete cascadingSession laterBooks)) =
       [\<lparr>u_type = DELETE, u_payload = DeletePayload [VNum 2, VNum 3], u_meta = Some ''Book''\<rparr>,
        \<lparr>u_type = DELETE, u_payload = DeletePayload [VNum 2], u_meta = Some ''BookAuthors''\<rparr>,
        \<lparr>u_type = DELETE, u_payload = DeletePayload [VNum 3], u_meta = Some ''BookAuthors''\<rparr>]
   \<and> state (snd (QuerySet_delete cascadingSession laterBooks)) = bookState"
proof -
  have n: "\<not> withMutations cascadingSession"
    by (simp add: cascadingSession_def bookSession_def)
  have u: "Session_updates cascadingSession = []" "state cascadingSession = bookState"
    by (simp_all add: cascadingSession_def bookSession_def Session_updates_def new_Transaction_def)
  have q: "idArr laterBooks = [VNum 2, VNum 3]" "modelName (modelClass laterBooks) = ''Book''"
    by (simp_all add: laterBooks_def QuerySet_constructor_def CascadingBook_def Model_def)
  have h: "hookRecords (map (\<lambda>i. model_entity (withId (modelClass laterBooks) bookState i)) [VNum 2, VNum 3])
      = [\<lparr>u_type = DELETE, u_payload = DeletePayload [VNum 2], u_meta = Some ''BookAuthors''\<rparr>,
        \<lparr>u_type = DELETE, u_payload = DeletePayload [VNum 3], u_meta = Some ''BookAuthors''\<rparr>]"
    by (simp add: laterBooks_def QuerySet_constructor_def CascadingBook_def Model_def
        Model_withId_def Model_accessId_def bookState_def bookTable_def book_def model_entity_def
        cascade_def get_prop_def)
  from delete_logs_removal_before_hooks [OF n, of laterBooks] show ?thesis using n u q h by simp
qed

section \<open>getNextState: the reducer pass and the pass over unapplied updates\<close>

lemma reducerStep_other:
  "modelName mc \<noteq> n \<Longrightarrow> fst (reducerStep s acc mc) n = fst acc n"
  by (auto simp: reducerStep_def ops_set_def split: prod.splits option.splits)

lemma reducerStep_fold_other:
  "n \<notin> set (map modelName ms) \<Longrightarrow> fst (foldl (reducerStep s) acc ms) n = fst acc n"
  by (induction ms arbitrary: acc) (auto simp: reducerStep_other)

lemma unappliedStep_other:
  "modelName mc \<noteq> n \<Longrightarrow> fst (unappliedStep s un acc mc) n = fst acc n"
  by (auto simp: unappliedStep_def ops_set_def split: prod.splits option.splits)

lemma unappliedStep_fold_other:
  "n \<notin> set (map modelName ms) \<Longrightarrow> fst (foldl (unappliedStep s un) acc ms) n = fst acc n"
  by (induction ms arbitrary: acc) (auto simp: unappliedStep_other)

lemma reducerStep_own:
  "fst (reducerStep s acc mc) (modelName mc) =
     (case reducer mc (Session_getState s (modelName mc)) (action s) (state s) (snd acc) of
        (None, tx1) \<Rightarrow> fst (getNextState mc (state s) tx1)
      | (Some v, tx1) \<Rightarrow> Some v)"
  by (auto simp: reducerStep_def ops_set_def split: prod.splits option.splits)

lemma unappliedStep_own:
  "fst (unappliedStep s un acc mc) (modelName mc) =
     (if un (modelName mc) = None then fst acc (modelName mc)
      else fst (getNextState mc (state s) (snd acc)))"
  by (auto simp: unappliedStep_def ops_set_def split: prod.splits option.splits)

text \<open>Marking records applied leaves the records of every table as they are.\<close>

lemma getUpdatesFor_markApplied:
  "Transaction_getUpdatesFor n (Transaction_markApplied m tx) = Transaction_getUpdatesFor n tx"
proof -
  have "map update (filter (\<lambda>e. u_meta (update e) = Some n)
          (map (\<lambda>e. if u_meta (update e) = Some m then e\<lparr>applied := True\<rparr> else e) es))
      = map update (filter (\<lambda>e. u_meta (update e) = Some n) es)" for es
    by (induction es) auto
  then show ?thesis
    by (simp add: Transaction_getUpdatesFor_def Transaction_markApplied_def)
qed

lemma Model_getNextState_value:
  "fst (Model_getNextState n st tx) = withRecordsApplied st n tx"
  by (simp add: Model_getNextState_def withRecordsApplied_def)

lemma unappliedStep_records:
  "getNextState mc = Model_getNextState (modelName mc) \<Longrightarrow>
   Transaction_getUpdatesFor n (snd (unappliedStep s un acc mc)) = Transaction_getUpdatesFor n (snd acc)"
  by (cases acc)
    (simp add: unappliedStep_def Model_getNextState_def getUpdatesFor_markApplied)

lemma unappliedStep_fold_records:
  "\<forall>m\<in>set ms. getNextState m = Model_getNextState (modelName m) \<Longrightarrow>
   Transaction_getUpdatesFor n (snd (foldl (unappliedStep s un) acc ms))
     = Transaction_getUpdatesFor n (snd acc)"
  by (induction ms arbitrary: acc) (simp_all add: unappliedStep_records)

text \<open>What the records applied in order leave of the id sequence and of a record.\<close>

lemma items_apply_update:
  "items (apply_update t u) = filter (\<lambda>i. \<not> removes [u] i) (items t)"
  by (cases "u_payload u") (simp_all add: apply_update_def removes_def)

lemma removes_Cons: "removes (u # us) i = (removes [u] i \<or> removes us i)"
  by (simp add: removes_def)

lemma items_applied:
  "items (foldl apply_update t us) = filter (\<lambda>i. \<not> removes us i) (items t)"
proof (induction us arbitrary: t)
  case Nil
  then show ?case by (simp add: removes_def)
next
  case (Cons u us)
  have "items (foldl apply_update (apply_update t u) us)
      = filter (\<lambda>i. \<not> removes us i) (filter (\<lambda>i. \<not> removes [u] i) (items t))"
    by (simp add: Cons.IH items_apply_update)
  also have "\<dots> = filter (\<lambda>i. \<not> removes (u # us) i) (items t)"
    by (simp add: removes_Cons [of u us] conj_commute)
  finally show ?case by simp
qed

lemma items_withRecordsApplied:
  "map_option items (withRecordsApplied st n tx)
     = map_option (\<lambda>t. filter (\<lambda>i. \<not> removes (Transaction_getUpdatesFor n tx) i) (items t)) (st n)"
  by (cases "st n") (simp_all add: withRecordsApplied_def items_applied)

text \<open>
  Claim C1 says that, with reducers running, the defined value a table's reducer returns
  becomes the table's next state. In the library the reducer of \<open>Author\<close> returns a table
  with the authors 1 and 2. The field-merge left in the log for \<open>Author\<close> is applied
  afterwards, to the table of the session's state: the returned tree has author 1, renamed,
  and no author 2. The value of the reducer is neither the next state of the table nor
  what the left-over record was applied to.
\<close>

theorem getNextState_reducer_value_dropped:
  "runReducers_of librarySession None
   \<and> map_option items
       (fst (reducer Author (Session_getState librarySession ''Author'') (action librarySession)
               (state librarySession) (snd (reducerPass librarySession [Book]))))
       = Some [VNum 1, VNum 2]
   \<and> map_option items (fst (Session_getNextState librarySession None) ''Author'') = Some [VNum 1]
   \<and> Model_accessId ''Author'' (fst (Session_getNextState librarySession None)) (VNum 2) = None
   \<and> Model_accessId ''Author'' (fst (Session_getNextState librarySession None)) (VNum 1)
       = Some [(''id'', VNum 1), (''name'', VStr ''Bob'')]"
  by (simp add: lib_defs ex_defs session_defs tx_defs model_defs Model_accessId_def)

text \<open>
  Claim C1, amended: in \<open>getNextState\<close> with reducers running, over model classes with the
  standard \<open>getNextState\<close> and distinct names, the reducer pass sets for every table the
  defined value its reducer returns, and for every table whose reducer returns
  \<open>undefined\<close> the table of the session with its recorded updates applied in order. After
  the reducer pass, every table that still has unapplied recorded updates gets, in place
  of the entry of the reducer pass, the table of the session with all its recorded updates
  applied in order, so that these updates are reflected in the returned state tree and a
  value that the reducer returned is dropped; every other table keeps the entry of the
  reducer pass. Where the recorded updates are applied, the id sequence loses exactly the
  ids that a removal record names.
\<close>

theorem getNextState_two_passes:
  assumes names: "distinct (map modelName (sessionBoundModels s))"
    and std: "\<forall>m\<in>set (sessionBoundModels s). getNextState m = Model_getNextState (modelName m)"
    and nm: "\<not> withMutations s"
    and run: "runReducers_of s userOpts"
    and models: "sessionBoundModels s = pre @ mc # post"
    and r: "r = reducer mc (Session_getState s (modelName mc)) (action s) (state s)
                  (snd (reducerPass s pre))"
    and after: "afterReducers = reducerPass s (sessionBoundModels s)"
    and final: "final = fst (Session_getNextState s userOpts)"
  shows "(fst r = Some v \<longrightarrow> fst afterReducers (modelName mc) = Some v)
     \<and> (fst r = None \<longrightarrow>
          fst afterReducers (modelName mc) = withRecordsApplied (state s) (modelName mc) (snd r))
     \<and> (unappliedFor (modelName mc) (snd afterReducers) \<noteq> [] \<longrightarrow>
          final (modelName mc) = withRecordsApplied (state s) (modelName mc) (snd afterReducers))
     \<and> (unappliedFor (modelName mc) (snd afterReducers) = [] \<longrightarrow>
          final (modelName mc) = fst afterReducers (modelName mc))
     \<and> map_option items (withRecordsApplied (state s) (modelName mc) tx)
         = map_option
             (\<lambda>t. filter (\<lambda>i. \<not> removes (Transaction_getUpdatesFor (modelName mc) tx) i) (items t))
             (state s (modelName mc))"
proof -
  let ?n = "modelName mc"
  let ?un = "Transaction_getUnappliedUpdatesByModel (snd afterReducers)"
  from names models have post: "?n \<notin> set (map modelName post)"
    and pre: "?n \<notin> set (map modelName pre)"
    by auto
  from std models have mc: "getNextState mc = Model_getNextState ?n"
    and std_pre: "\<forall>m\<in>set pre. getNextState m = Model_getNextState (modelName m)"
    by simp_all
  have a1: "fst afterReducers ?n = fst (reducerStep s (reducerPass s pre) mc) ?n"
    using post by (simp add: after models reducerPass_def reducerStep_fold_other)
  have res: "final = fst (foldl (unappliedStep s ?un) afterReducers (sessionBoundModels s))"
    using nm run by (simp add: final Session_getNextState_def Let_def unappliedPass_def after)
  have a2: "final ?n = fst (unappliedStep s ?un (foldl (unappliedStep s ?un) afterReducers pre) mc) ?n"
    using post by (simp add: res models unappliedStep_fold_other)
  have a3: "fst (foldl (unappliedStep s ?un) afterReducers pre) ?n = fst afterReducers ?n"
    using pre by (simp add: unappliedStep_fold_other)
  have a4: "Transaction_getUpdatesFor ?n (snd (foldl (unappliedStep s ?un) afterReducers pre))
      = Transaction_getUpdatesFor ?n (snd afterReducers)"
    by (rule unappliedStep_fold_records [OF std_pre])
  have un: "(?un ?n = None) = (unappliedFor ?n (snd afterReducers) = [])"
    by (simp add: Transaction_getUnappliedUpdatesByModel_def)
  have c1: "fst r = Some v \<longrightarrow> fst afterReducers ?n = Some v"
    using a1 r by (auto simp: reducerStep_own split: prod.splits)
  have c2: "fst r = None \<longrightarrow> fst afterReducers ?n = withRecordsApplied (state s) ?n (snd r)"
    using a1 r by (auto simp: reducerStep_own mc Model_getNextState_value split: prod.splits)
  have c3: "unappliedFor ?n (snd afterReducers) \<noteq> [] \<longrightarrow>
      final ?n = withRecordsApplied (state s) ?n (snd afterReducers)"
    using a2 a4 un
    by (simp add: unappliedStep_own mc Model_getNextState_value withRecordsApplied_def)
  have c4: "unappliedFor ?n (snd afterReducers) = [] \<longrightarrow> final ?n = fst afterReducers ?n"
    using a2 a3 un by (simp add: unappliedStep_own)
  from c1 c2 c3 c4 items_withRecordsApplied [of "state s" ?n tx] show ?thesis by blast
qed

theorem getNextState_two_passes_witness:
  "distinct (map modelName (sessionBoundModels librarySession))
   \<and> list_all (\<lambda>m. getNextState m = Model_getNextState (modelName m))
        (sessionBoundModels librarySession)
   \<and> \<not> withMutations librarySession
   \<and> runReducers_of librarySession None
   \<and> sessionBoundModels librarySession = [] @ Book # [Author, Publisher]
   \<and> sessionBoundModels librarySession = [Book] @ Author # [Publisher]
   \<and> sessionBoundModels librarySession = [Book, Author] @ Publisher # []
   \<and> Session_getUpdatesFor librarySession ''Book'' = [deleteBook2, deleteBook3]
   \<and> fst (reducer Book (Session_getState librarySession ''Book'') (action librarySession)
            (state librarySession) (snd (reducerPass librarySession []))) = None
   \<and> unappliedFor ''Book'' (snd (reducerPass librarySession [Book, Author, Publisher])) = []
   \<and> map_option items (fst (Session_getNextState librarySession None) ''Book'') = Some [VNum 1]
   \<and> map_option items
        (fst (reducer Author (Session_getState librarySession ''Author'') (action librarySession)
                (state librarySession) (snd (reducerPass librarySession [Book]))))
       = Some [VNum 1, VNum 2]
   \<and> map_option items (fst (reducerPass librarySession [Book, Author, Publisher]) ''Author'')
       = Some [VNum 1, VNum 2]
   \<and> unappliedFor ''Author'' (snd (reducerPass librarySession [Book, Author, Publisher]))
       = [renameAuthor1]
   \<and> map_option items (fst (Session_getNextState librarySession None) ''Author'') = Some [VNum 1]
   \<and> map_option (\<lambda>t. itemsById t (VNum 1)) (fst (Session_getNextState librarySession None) ''Author'')
       = Some (Some [(''id'', VNum 1), (''name'', VStr ''Bob'')])
   \<and> fst (reducer Publisher (Session_getState librarySession ''Publisher'') (action librarySession)
            (state librarySession) (snd (reducerPass librarySession [Book, Author])))
       = Some publisherTable
   \<and> unappliedFor ''Publisher'' (snd (reducerPass librarySession [Book, Author, Publisher])) = []
   \<and> fst (Session_getNextState librarySession None) ''Publisher'' = Some publisherTable"
proof -
  let ?after = "reducerPass librarySession [Book, Author, Publisher]"
  let ?final = "fst (Session_getNextState librarySession None)"
  have sm: "sessionBoundModels librarySession = [Book, Author, Publisher]"
    by (simp add: lib_defs)
  have d: "distinct (map modelName (sessionBoundModels librarySession))"
    by (simp add: lib_defs ex_defs)
  have std: "\<forall>m\<in>set (sessionBoundModels librarySession).
      getNextState m = Model_getNextState (modelName m)"
    by (simp add: lib_defs ex_defs)
  have n: "\<not> withMutations librarySession"
    by (simp add: lib_defs)
  have run: "runReducers_of librarySession None"
    by (simp add: lib_defs runReducers_of_def)
  have mB: "sessionBoundModels librarySession = [] @ Book # [Author, Publisher]"
    and mA: "sessionBoundModels librarySession = [Book] @ Author # [Publisher]"
    and mP: "sessionBoundModels librarySession = [Book, Author] @ Publisher # []"
    by (simp_all add: lib_defs)
  have names: "modelName Book = ''Book''" "modelName Author = ''Author''"
    "modelName Publisher = ''Publisher''"
    by (simp_all add: lib_defs ex_defs)
  have st: "state librarySession = libraryState"
    by (simp add: lib_defs)
  have log: "Session_getUpdatesFor librarySession ''Book'' = [deleteBook2, deleteBook3]"
    by (simp add: lib_defs ex_defs session_defs tx_defs)
  have rB: "fst (reducer Book (Session_getState librarySession ''Book'') (action librarySession)
            (state librarySession) (snd (reducerPass librarySession []))) = None"
    by (simp add: ex_defs model_defs)
  define v where "v = \<lparr>items = [VNum 1, VNum 2], itemsById = (itemsById authorTable)(VNum 2 \<mapsto> cid)\<rparr>"
  have rv: "fst (reducer Author (Session_getState librarySession ''Author'') (action librarySession)
                (state librarySession) (snd (reducerPass librarySession [Book]))) = Some v"
    by (simp add: v_def lib_defs ex_defs session_defs)
  have rA: "map_option items
        (fst (reducer Author (Session_getState librarySession ''Author'') (action librarySession)
                (state librarySession) (snd (reducerPass librarySession [Book]))))
       = Some [VNum 1, VNum 2]"
    by (simp add: rv v_def)
  have rP: "fst (reducer Publisher (Session_getState librarySession ''Publisher'') (action librarySession)
            (state librarySession) (snd (reducerPass librarySession [Book, Author])))
       = Some publisherTable"
    by (simp add: lib_defs ex_defs session_defs)
  have uB: "unappliedFor ''Book'' (snd ?after) = []"
    by (simp add: lib_defs ex_defs session_defs tx_defs model_defs)
  have uA: "unappliedFor ''Author'' (snd ?after) = [renameAuthor1]"
    by (simp add: lib_defs ex_defs session_defs tx_defs model_defs)
  have uP: "unappliedFor ''Publisher'' (snd ?after) = []"
    by (simp add: lib_defs ex_defs session_defs tx_defs model_defs)
  have wB: "map_option items
      (withRecordsApplied libraryState ''Book''
         (snd (reducer Book (Session_getState librarySession ''Book'') (action librarySession)
            (state librarySession) (snd (reducerPass librarySession []))))) = Some [VNum 1]"
    by (simp add: withRecordsApplied_def lib_defs ex_defs session_defs tx_defs model_defs)
  have wA: "map_option items (withRecordsApplied libraryState ''Author'' (snd ?after)) = Some [VNum 1]"
    "map_option (\<lambda>t. itemsById t (VNum 1)) (withRecordsApplied libraryState ''Author'' (snd ?after))
       = Some (Some [(''id'', VNum 1), (''name'', VStr ''Bob'')])"
    by (simp_all add: withRecordsApplied_def lib_defs ex_defs session_defs tx_defs model_defs)
  note B = getNextState_two_passes [OF d std n run mB refl refl refl, of publisherTable libraryLog]
  note A = getNextState_two_passes [OF d std n run mA refl refl refl, of v libraryLog]
  note P = getNextState_two_passes [OF d std n run mP refl refl refl, of publisherTable libraryLog]
  from B rB uB wB have fB: "map_option items (?final ''Book'') = Some [VNum 1]"
    unfolding names sm st by simp
  from A rv have aA: "map_option items (fst ?after ''Author'') = Some [VNum 1, VNum 2]"
    unfolding names sm st by (simp add: v_def)
  from A uA wA have fA: "map_option items (?final ''Author'') = Some [VNum 1]"
    "map_option (\<lambda>t. itemsById t (VNum 1)) (?final ''Author'')
       = Some (Some [(''id'', VNum 1), (''name'', VStr ''Bob'')])"
    unfolding names sm st by simp_all
  from P rP uP have fP: "?final ''Publisher'' = Some publisherTable"
    unfolding names sm st by simp
  have std': "list_all (\<lambda>m. getNextState m = Model_getNextState (modelName m))
        (sessionBoundModels librarySession)"
    using std by (simp add: list_all_iff)
  from d std' n run mB mA mP log rB uB fB rA aA uA fA rP uP fP show ?thesis
    by (intro conjI) assumption+
qed

section \<open>Lemmas on sorting with a comparer\<close>





























































section \<open>orderBy: stable, ascending by default, idempotent\<close>





end
